theory Spec2Isabelle
  imports Complex_Main
begin

section \<open>Strings\<close>

text \<open>
  A JavaScript string is modelled as a \<^typ>\<open>string\<close>, one \<^typ>\<open>char\<close> per code unit.
  The string methods the sources call are written out below with the results the
  language gives them; \<open>indexOf\<close> returns \<open>None\<close> where JavaScript returns \<open>-1\<close>.
\<close>

definition startsWith :: "string \<Rightarrow> string \<Rightarrow> bool" where
  "startsWith text p = (take (length p) text = p)"

definition endsWith :: "string \<Rightarrow> string \<Rightarrow> bool" where
  "endsWith text p = (length p \<le> length text \<and> drop (length text - length p) text = p)"

definition substring :: "string \<Rightarrow> nat \<Rightarrow> nat \<Rightarrow> string" where
  "substring text b e = (if b \<le> e then take (e - b) (drop b text) else take (b - e) (drop e text))"

definition substringFrom :: "string \<Rightarrow> nat \<Rightarrow> string" where
  "substringFrom text b = drop b text"

fun indexOf :: "string \<Rightarrow> string \<Rightarrow> nat option" where
  "indexOf [] sep = (if sep = [] then Some 0 else None)"
| "indexOf (c # cs) sep =
     (if startsWith (c # cs) sep then Some 0 else map_option Suc (indexOf cs sep))"

fun lastIndexOf :: "string \<Rightarrow> string \<Rightarrow> nat option" where
  "lastIndexOf [] sep = (if sep = [] then Some 0 else None)"
| "lastIndexOf (c # cs) sep =
     (case lastIndexOf cs sep of
        Some i \<Rightarrow> Some (Suc i)
      | None \<Rightarrow> if startsWith (c # cs) sep then Some 0 else None)"

text \<open>
  \<open>toLowerCase\<close> maps the letters A to Z to a to z. No other code unit is mapped to an
  ASCII letter other than k or i, so on the words compared below other code units can be left
  as they are.
\<close>

definition lowerChar :: "char \<Rightarrow> char" where
  "lowerChar c =
     (case map_of (zip ''ABCDEFGHIJKLMNOPQRSTUVWXYZ'' ''abcdefghijklmnopqrstuvwxyz'') c of
        Some l \<Rightarrow> l
      | None \<Rightarrow> c)"

definition toLowerCase :: "string \<Rightarrow> string" where
  "toLowerCase text = map lowerChar text"

text \<open>
  The white space \<open>trim\<close> strips: space, the five control characters, and the no-break
  space. The other Unicode spaces are code units beyond the 256 that \<^typ>\<open>char\<close> has.
\<close>

definition isWhiteSpace :: "char \<Rightarrow> bool" where
  "isWhiteSpace c =
     (c \<in> set [CHR '' '', CHR 0x09, CHR 0x0A, CHR 0x0B, CHR 0x0C, CHR 0x0D, CHR 0xA0])"

definition trim :: "string \<Rightarrow> string" where
  "trim text = rev (dropWhile isWhiteSpace (rev (dropWhile isWhiteSpace text)))"

fun join :: "string \<Rightarrow> string list \<Rightarrow> string" where
  "join sep [] = []"
| "join sep [x] = x"
| "join sep (x # y # ys) = x @ sep @ join sep (y # ys)"

lemma indexOf_bound: "indexOf text sep = Some i \<Longrightarrow> i + length sep \<le> length text"
proof (induction "text" arbitrary: i)
  case Nil
  then show ?case by (simp split: if_splits)
next
  case (Cons c cs)
  show ?case
  proof (cases "startsWith (c # cs) sep")
    case True
    then have "take (length sep) (c # cs) = sep"
      by (simp add: startsWith_def)
    then have "length (take (length sep) (c # cs)) = length sep"
      by simp
    then have "length sep \<le> length (c # cs)"
      by (simp only: length_take)
    with Cons.prems True show ?thesis by simp
  next
    case False
    with Cons.prems obtain j where "indexOf cs sep = Some j" "i = Suc j"
      by auto
    with Cons.IH show ?thesis by simp
  qed
qed

function split :: "string \<Rightarrow> string \<Rightarrow> string list" where
  "split text sep =
     (if sep = [] then map (\<lambda>c. [c]) text
      else case indexOf text sep of
             None \<Rightarrow> [text]
           | Some i \<Rightarrow> take i text # split (drop (i + length sep) text) sep)"
  by pat_completeness auto
termination
proof (relation "measure (\<lambda>(text, sep). length text)", goal_cases)
  case 1
  show ?case by simp
next
  case (2 s sp i)
  from indexOf_bound[OF 2(2)] 2(1) show ?case by (cases sp) auto
qed

declare split.simps [simp del]

section \<open>Errors and values\<close>

text \<open>
  A thrown \<open>Error\<close>: its message and the \<open>exitCode\<close> property it may carry.
  \<open>new Error(m)\<close> is \<open>Error m None\<close>. \<open>TypeError\<close> is the error the language itself
  throws on a property read it forbids; its message is the engine's, and it carries no
  \<open>exitCode\<close>.
\<close>

datatype error = Error (message: string) (exitCode: "int option") | TypeError

text \<open>
  JavaScript numbers are IEEE doubles: the real number a double denotes, or one of the
  three special values.
\<close>

datatype jsnumber = NaN | PosInfinity | NegInfinity | Finite real

text \<open>The values a coercer of the registry returns (the type \<open>unknown\<close> of the source).\<close>

datatype jsval =
    Undefined
  | Null
  | Boolean bool
  | Number jsnumber
  | Bigint int
  | String string
  | Array "jsval list"
  | Object "(string \<times> jsval) list"

section \<open>util.ts\<close>

record SplitOptions =
  separator :: string
  trimOption :: "bool option"

text \<open>
  \<open>splitOnceOrZero\<close> returns a one-element or a two-element tuple: the second component
  is \<open>None\<close> for the one-element tuple. The right part starts one code unit after the
  position of the separator, whatever the separator's length.
\<close>

definition splitOnceOrZero :: "string \<Rightarrow> SplitOptions \<Rightarrow> string \<times> string option" where
  "splitOnceOrZero text options =
     (case indexOf text (separator options) of
        None \<Rightarrow> (text, None)
      | Some pos \<Rightarrow>
          (let left = substring text 0 pos; right = substringFrom text (pos + 1)
           in if trimOption options = Some True then (trim left, Some (trim right))
              else (left, Some right)))"

definition splitOnceOrFail :: "string \<Rightarrow> SplitOptions \<Rightarrow> error + (string \<times> string)" where
  "splitOnceOrFail text options =
     (case splitOnceOrZero text options of
        (l, Some r) \<Rightarrow> Inr (l, r)
      | (l, None) \<Rightarrow>
          Inl (Error (''Expected exactly one separator in '' @ [CHR 0x27] @ text @ [CHR 0x27]) None))"

definition identity :: "string \<Rightarrow> error + jsval" where
  "identity v = Inr (String v)"

section \<open>valueParser.ts: type names\<close>

datatype GenericTypeName =
  GenericTypeName (typeName: string) (typeParameters: "GenericTypeName list")

definition isIdentifierChar :: "char \<Rightarrow> nat \<Rightarrow> bool" where
  "isIdentifierChar ch position =
     (if of_char (CHR ''a'') \<le> (of_char ch :: nat) \<and> (of_char ch :: nat) \<le> of_char (CHR ''z'') then True
      else if of_char (CHR ''A'') \<le> (of_char ch :: nat) \<and> (of_char ch :: nat) \<le> of_char (CHR ''Z'') then True
      else if of_char (CHR ''A'') \<le> (of_char ch :: nat) \<and> (of_char ch :: nat) \<le> of_char (CHR ''Z'') then True
      else if ch = CHR ''_'' \<or> ch = CHR ''$'' then True
      else if 0 < position \<and> of_char (CHR ''0'') \<le> (of_char ch :: nat) \<and> (of_char ch :: nat) \<le> of_char (CHR ''9'') then True
      else False)"

text \<open>
  \<open>readTypeNameFromReader\<close>. The \<open>StringReader\<close> is the text still unread: \<open>read\<close> takes its
  head, \<open>eof\<close> holds when it is empty. The loop variables \<open>nameOver\<close>, \<open>typeOver\<close>,
  \<open>buffer\<close> and \<open>typeParameters\<close> are arguments; a nested call starts with fresh ones on
  the reader as the caller left it, and the caller goes on with the reader as the nested
  call left it. The function returns the descriptor and the reader it leaves behind.
\<close>

function readTypeNameLoop ::
  "bool \<Rightarrow> bool \<Rightarrow> string \<Rightarrow> GenericTypeName list \<Rightarrow> string \<Rightarrow> error + (GenericTypeName \<times> string)"
where
  "readTypeNameLoop nameOver typeOver buffer tps [] = Inr (GenericTypeName buffer tps, [])"
| "readTypeNameLoop nameOver typeOver buffer tps (ch # reader) =
     (if ch = CHR '' '' then
        readTypeNameLoop (if 0 < length buffer then True else nameOver) typeOver buffer tps reader
      else if \<not> nameOver \<and> \<not> typeOver \<and> isIdentifierChar ch (length buffer) then
        readTypeNameLoop nameOver typeOver (buffer @ [ch]) tps reader
      else if ch = CHR ''<'' \<or> ch = CHR '','' then
        (case readTypeNameLoop False False [] [] reader of
           Inl e \<Rightarrow> Inl e
         | Inr (t, reader') \<Rightarrow> readTypeNameLoop True typeOver buffer (tps @ [t]) reader')
      else if ch = CHR ''>'' then
        readTypeNameLoop True True buffer tps reader
      else Inl (Error (''Failed to read type name '' @ [CHR 0x27] @ buffer @ [ch] @ [CHR 0x27]) None))"
  by pat_completeness auto

text \<open>The loop only returns at the end of the text, so a nested call leaves nothing unread.\<close>

lemma readTypeNameLoop_rest:
  "readTypeNameLoop_dom (n, t, b, ps, s) \<Longrightarrow> readTypeNameLoop n t b ps s = Inr (g, r) \<Longrightarrow> r = []"
proof (induct n t b ps s arbitrary: g r rule: readTypeNameLoop.pinduct)
  case (1 nameOver typeOver buffer tps)
  then show ?case by (simp add: readTypeNameLoop.psimps)
next
  case (2 nameOver typeOver buffer tps ch reader)
  note eq = "2.prems"[unfolded readTypeNameLoop.psimps(2)[OF "2.hyps"(1)]]
  show ?case
  proof (cases "ch = CHR '' ''")
    case True
    from eq True
    have "readTypeNameLoop (if 0 < length buffer then True else nameOver) typeOver buffer tps reader = Inr (g, r)"
      by simp
    from "2.hyps"(2)[OF True this] show ?thesis .
  next
    case sp: False
    show ?thesis
    proof (cases "\<not> nameOver \<and> \<not> typeOver \<and> isIdentifierChar ch (length buffer)")
      case True
      from eq sp True
      have "readTypeNameLoop nameOver typeOver (buffer @ [ch]) tps reader = Inr (g, r)"
        by (auto split: if_splits)
      from "2.hyps"(3)[OF sp True this] show ?thesis .
    next
      case ident: False
      show ?thesis
      proof (cases "ch = CHR ''<'' \<or> ch = CHR '',''")
        case True
        from eq sp ident True obtain t rd where
          inner: "readTypeNameLoop False False [] [] reader = Inr (t, rd)"
          and outer: "readTypeNameLoop True typeOver buffer (tps @ [t]) rd = Inr (g, r)"
          by (auto split: if_splits sum.splits prod.splits)
        from "2.hyps"(5)[OF sp ident True inner refl outer] show ?thesis .
      next
        case br: False
        show ?thesis
        proof (cases "ch = CHR ''>''")
          case True
          from eq sp ident br True
          have "readTypeNameLoop True True buffer tps reader = Inr (g, r)"
            by (auto split: if_splits)
          from "2.hyps"(6)[OF sp ident br True this] show ?thesis .
        next
          case False
          with sp ident br eq show ?thesis by (auto split: if_splits)
        qed
      qed
    qed
  qed
qed

termination readTypeNameLoop
proof (relation "measure (\<lambda>(n, t, b, ps, s). length s)", goal_cases)
  case (5 nameOver typeOver buffer tps ch reader x2 x y)
  from 5 have "readTypeNameLoop False False [] [] reader = Inr (x, y)" by simp
  from readTypeNameLoop_rest[OF 5(6) this] show ?case by simp
qed simp_all

definition readTypeNameFromReader :: "string \<Rightarrow> error + (GenericTypeName \<times> string)" where
  "readTypeNameFromReader reader = readTypeNameLoop False False [] [] reader"

text \<open>
  \<open>getArrayElementTypeName\<close>. The second branch's \<open>begin\<close> and \<open>end\<close> are \<open>-1\<close> when the
  bracket is absent: \<open>begin + 1\<close> is then 0, and \<open>substring\<close> reads a negative \<open>end\<close> as 0.
\<close>

definition getArrayElementTypeName :: "string \<Rightarrow> string" where
  "getArrayElementTypeName tn =
     (if endsWith tn ''[]'' then substring tn 0 (length tn - 2)
      else let b = (case indexOf tn ''<'' of None \<Rightarrow> 0 | Some i \<Rightarrow> i + 1);
               e = (case lastIndexOf tn ''>'' of None \<Rightarrow> 0 | Some i \<Rightarrow> i)
           in substring tn b e)"

definition parseTypeName :: "string \<Rightarrow> error + GenericTypeName" where
  "parseTypeName tn =
     (if endsWith tn ''[]'' then
        (let elementType = GenericTypeName (getArrayElementTypeName tn) []
         in Inr (GenericTypeName ''Array'' [elementType]))
      else map_sum id fst (readTypeNameFromReader tn))"

definition ARRAY_BASE_TYPE_NAMES :: "string list" where
  "ARRAY_BASE_TYPE_NAMES = [''Array'', ''ReadonlyArray'', ''Set'', ''ReadonlySet'']"

definition RECORD_BASE_TYPE_NAMES :: "string list" where
  "RECORD_BASE_TYPE_NAMES = [''Record'', ''Map'', ''ReadonlyMap'']"

section \<open>valueParser.ts: the registry\<close>

text \<open>
  The built-in functions of the language that the registry is seeded with and that are
  not written out here are parameters: \<open>Number\<close>, \<open>BigInt\<close> (which throws on text that is
  no integer literal), \<open>Date.parse\<close>, and the conversion of a value that is not a string
  to a property key. \<open>String\<close> and \<open>Boolean\<close> are written out: on a string \<open>String\<close>
  returns it, and \<open>Boolean\<close> returns whether it is non-empty.
\<close>

record runtime =
  js_Number :: "string \<Rightarrow> jsnumber"
  js_BigInt :: "string \<Rightarrow> error + int"
  js_Date_parse :: "string \<Rightarrow> jsnumber"
  js_ToPropertyKey :: "jsval \<Rightarrow> string"

type_synonym parser = "string \<Rightarrow> error + jsval"

definition js_String :: parser where
  "js_String t = Inr (String t)"

definition js_Boolean :: parser where
  "js_Boolean t = Inr (Boolean (t \<noteq> []))"

record ParserRegistryOptions =
  opt_parsers :: "string \<rightharpoonup> parser"
  opt_arraySeparator :: "string option"
  opt_recordKeyValueSeparator :: "string option"
  opt_recordEntrySeparator :: "string option"

text \<open>
  The dictionary \<open>parsers\<close> is a map from property names; the properties every
  JavaScript object inherits are outside the model.
\<close>

record ParserRegistry =
  parsers :: "string \<rightharpoonup> parser"
  arraySeparator :: string
  recordEntrySeparator :: string
  recordKeyValueSeparator :: string

definition builtinParsers :: "runtime \<Rightarrow> (string \<rightharpoonup> parser)" where
  "builtinParsers rt = map_of
     [(''string'', js_String),
      (''number'', \<lambda>t. Inr (Number (js_Number rt t))),
      (''bigint'', \<lambda>t. map_sum id Bigint (js_BigInt rt t)),
      (''boolean'', js_Boolean),
      (''date'', \<lambda>t. Inr (Number (js_Date_parse rt t))),
      (''undefined'', identity),
      (''unknown'', identity),
      (''any'', identity)]"

definition newParserRegistry :: "runtime \<Rightarrow> ParserRegistryOptions \<Rightarrow> ParserRegistry" where
  "newParserRegistry rt options =
     \<lparr> parsers = builtinParsers rt ++ opt_parsers options,
       arraySeparator = (case opt_arraySeparator options of None \<Rightarrow> '','' | Some s \<Rightarrow> s),
       recordEntrySeparator = (case opt_recordEntrySeparator options of None \<Rightarrow> '','' | Some s \<Rightarrow> s),
       recordKeyValueSeparator = (case opt_recordKeyValueSeparator options of None \<Rightarrow> ''='' | Some s \<Rightarrow> s) \<rparr>"

text \<open>\<open>xs.map(f)\<close> where \<open>f\<close> may throw: the first error ends the traversal.\<close>

fun mapResult :: "('a \<Rightarrow> error + 'b) \<Rightarrow> 'a list \<Rightarrow> error + 'b list" where
  "mapResult f [] = Inr []"
| "mapResult f (x # xs) =
     (case f x of
        Inl e \<Rightarrow> Inl e
      | Inr y \<Rightarrow> (case mapResult f xs of Inl e \<Rightarrow> Inl e | Inr ys \<Rightarrow> Inr (y # ys)))"

text \<open>
  A type name read out of a destructured array is \<open>undefined\<close> (\<open>None\<close>) where the array
  is too short; as a property key and in a template it reads \<open>undefined\<close>.
\<close>

definition nameOrUndefined :: "string option \<Rightarrow> string" where
  "nameOrUndefined n = (case n of None \<Rightarrow> ''undefined'' | Some s \<Rightarrow> s)"

definition element :: "'a list \<Rightarrow> nat \<Rightarrow> 'a option" where
  "element xs i = (if i < length xs then Some (xs ! i) else None)"

text \<open>
  An object as its own properties in insertion order; writing a property that exists
  replaces its value. (JavaScript enumerates keys that are array indices first; the order
  of the list does not model that.)
\<close>

fun setProperty :: "string \<Rightarrow> 'v \<Rightarrow> (string \<times> 'v) list \<Rightarrow> (string \<times> 'v) list" where
  "setProperty k v [] = [(k, v)]"
| "setProperty k v ((k', v') # ps) =
     (if k = k' then (k, v) # ps else (k', v') # setProperty k v ps)"

definition toPropertyKey :: "runtime \<Rightarrow> jsval \<Rightarrow> string" where
  "toPropertyKey rt k = (case k of String s \<Rightarrow> s | _ \<Rightarrow> js_ToPropertyKey rt k)"

definition fromEntries :: "runtime \<Rightarrow> (jsval \<times> jsval) list \<Rightarrow> jsval" where
  "fromEntries rt entries =
     Object (foldl (\<lambda>obj (k, v). setProperty (toPropertyKey rt k) v obj) [] entries)"

definition parseArray :: "ParserRegistry \<Rightarrow> string option \<Rightarrow> string \<Rightarrow> error + jsval" where
  "parseArray this elementTypeName text =
     (case parsers this (nameOrUndefined elementTypeName) of
        None \<Rightarrow> Inl (Error (''No parser for type: '' @ nameOrUndefined elementTypeName) None)
      | Some reader \<Rightarrow> map_sum id Array (mapResult reader (split text (arraySeparator this))))"

definition parseRecord ::
  "runtime \<Rightarrow> ParserRegistry \<Rightarrow> string option \<Rightarrow> string option \<Rightarrow> string \<Rightarrow> error + jsval"
where
  "parseRecord rt this keyTypeName valueTypeName text =
     (case parsers this (nameOrUndefined keyTypeName) of
        None \<Rightarrow> Inl (Error (''No parser for type: '' @ nameOrUndefined keyTypeName) None)
      | Some keyReader \<Rightarrow>
     (case parsers this (nameOrUndefined valueTypeName) of
        None \<Rightarrow> Inl (Error (''No parser for type: '' @ nameOrUndefined valueTypeName) None)
      | Some valueReader \<Rightarrow>
          (let entryStrings = split text (recordEntrySeparator this);
               entryTuples = map (\<lambda>s. splitOnceOrZero s
                  \<lparr>separator = recordKeyValueSeparator this, trimOption = None\<rparr>) entryStrings;
               typedEntries = mapResult (\<lambda>(key, v).
                  case keyReader key of
                    Inl e \<Rightarrow> Inl e
                  | Inr k \<Rightarrow>
                      (case v of
                         None \<Rightarrow> Inr (k, Undefined)
                       | Some w \<Rightarrow> map_sum id (Pair k) (valueReader w))) entryTuples
           in map_sum id (fromEntries rt) typedEntries)))"

definition parse :: "runtime \<Rightarrow> ParserRegistry \<Rightarrow> string \<Rightarrow> string \<Rightarrow> error + jsval" where
  "parse rt this tn text =
     (case parsers this tn of
        Some p \<Rightarrow> p text
      | None \<Rightarrow>
          (case parseTypeName tn of
             Inl e \<Rightarrow> Inl e
           | Inr parsedTypeName \<Rightarrow>
               (let names = map typeName (typeParameters parsedTypeName) in
                if typeName parsedTypeName \<in> set ARRAY_BASE_TYPE_NAMES then
                  parseArray this (element names 0) text
                else if typeName parsedTypeName \<in> set RECORD_BASE_TYPE_NAMES then
                  parseRecord rt this (element names 0) (element names 1) text
                else Inl (Error (''No parser for type: '' @ tn) None))))"

text \<open>The registry as it is built when the caller supplies no option.\<close>

definition noOptions :: ParserRegistryOptions where
  "noOptions = \<lparr> opt_parsers = Map.empty, opt_arraySeparator = None,
                 opt_recordKeyValueSeparator = None, opt_recordEntrySeparator = None \<rparr>"

text \<open>A runtime in which no text denotes a number or an integer.\<close>

definition plainRuntime :: runtime where
  "plainRuntime = \<lparr> js_Number = (\<lambda>t. NaN),
                     js_BigInt = (\<lambda>t. Inl (Error (''Cannot convert '' @ t @ '' to a BigInt'') None)),
                     js_Date_parse = (\<lambda>t. NaN),
                     js_ToPropertyKey = (\<lambda>v. ''[object Object]'') \<rparr>"

section \<open>cli.ts: boolean flag values\<close>

definition FLAG_NO_VALUES :: "string list" where
  "FLAG_NO_VALUES = [''no'', ''0'', ''off'', ''false'']"

definition FLAG_YES_VALUES :: "string list" where
  "FLAG_YES_VALUES = [''yes'', ''1'', ''on'', ''true'']"

text \<open>The value is \<open>None\<close> when it is \<open>undefined\<close>; \<open>!value\<close> also holds of the empty string.\<close>

definition booleanFlagValue :: "string option \<Rightarrow> bool \<Rightarrow> error + bool" where
  "booleanFlagValue v defaultValue =
     (case v of
        None \<Rightarrow> Inr defaultValue
      | Some val \<Rightarrow>
          if val = [] then Inr defaultValue
          else let lowerValue = toLowerCase val in
            if lowerValue \<in> set FLAG_NO_VALUES then Inr False
            else if lowerValue \<in> set FLAG_YES_VALUES then Inr True
            else Inl (Error (''Illegal boolean flag value: '' @ val @ '' (expected one of ''
                   @ join '','' (FLAG_NO_VALUES @ [join '','' FLAG_YES_VALUES]) @ '')'') None))"

section \<open>metaInterface.ts: the metadata tree\<close>

datatype MetaScalarType = ScalarBigint | ScalarBoolean | ScalarNumber | ScalarString

record MetaTaggable =
  summary :: "string option"
  seeAlso :: "string option"
  aliases :: "string list option"
  defaultTag :: "string option"
  example :: "string option"
  ignore :: "bool option"
  access :: "string option"

text \<open>
  \<open>MetaObjectType\<close> carries its optional name, its optional description and its members by
  name. A data type that may be the string \<open>unknown\<close> or \<open>void\<close> instead of a type reference
  is a \<open>MetaDataType\<close>.
\<close>

datatype MetaType =
    ScalarType MetaScalarType
  | MetaArrayType MetaTypeRef
  | MetaRecordType MetaScalarType MetaTypeRef
  | MetaObjectType "string option" "string option" "(string \<times> MetaMember) list"
and MetaTypeRef =
    MetaTypeRef MetaType bool
and MetaDataType =
    TypeRef MetaTypeRef
  | MetaUnknownType
  | MetaVoidType
and MetaMember =
    MetaObjectProperty string "string option" MetaTaggable MetaTypeRef
  | MetaScalarProperty string "string option" MetaTaggable MetaTypeRef
  | MetaMethod string "string option" MetaTaggable "MetaParameter list" MetaDataType
and MetaParameter =
    MetaParameter string "string option" MetaDataType

record MetaInterface =
  members :: "(string \<times> MetaMember) list"
  interfaceDescription :: "string option"
  packageName :: "string option"
  packageVersion :: "string option"

section \<open>ast.ts: rendering a type\<close>

fun scalarName :: "MetaScalarType \<Rightarrow> string" where
  "scalarName ScalarBigint = ''bigint''"
| "scalarName ScalarBoolean = ''boolean''"
| "scalarName ScalarNumber = ''number''"
| "scalarName ScalarString = ''string''"

text \<open>
  The argument of \<open>humanReadableType\<close> is a type reference, a type, or the string
  \<open>unknown\<close>. A type that is a string (a scalar type, \<open>unknown\<close>) is returned as it is;
  then the source tells the shapes apart by the property each one has: \<open>keyDataType\<close> (a
  record type), \<open>valueDataType\<close> (an array type), \<open>type\<close> (a type reference), and what
  is left is an object type.
\<close>

datatype TypeArgument = OfTypeRef MetaTypeRef | OfType MetaType | OfUnknown

function (sequential) humanReadableType :: "TypeArgument \<Rightarrow> string" where
  "humanReadableType OfUnknown = ''unknown''"
| "humanReadableType (OfType (ScalarType s)) = scalarName s"
| "humanReadableType (OfType (MetaRecordType keyDataType valueDataType)) =
     ''Map<'' @ humanReadableType (OfType (ScalarType keyDataType)) @ '', ''
       @ humanReadableType (OfTypeRef valueDataType) @ ''>''"
| "humanReadableType (OfType (MetaArrayType valueDataType)) =
     humanReadableType (OfTypeRef valueDataType) @ ''[]''"
| "humanReadableType (OfTypeRef (MetaTypeRef t nullable)) = humanReadableType (OfType t)"
| "humanReadableType (OfType (MetaObjectType name description ms)) =
     (case name of Some n \<Rightarrow> n | None \<Rightarrow> ''unknown'')"
  by pat_completeness auto
termination
  by (relation "measure (\<lambda>a. case a of OfTypeRef r \<Rightarrow> size r | OfType t \<Rightarrow> size t | OfUnknown \<Rightarrow> 0)")
     auto

definition isTypeNullable :: "MetaDataType \<Rightarrow> bool" where
  "isTypeNullable t = (case t of TypeRef (MetaTypeRef u nullable) \<Rightarrow> nullable | _ \<Rightarrow> False)"

section \<open>cli.ts: the live tree\<close>

text \<open>
  A value of the live command object. A function carries whether it is restricted, the
  number of parameters it declares and its body. A restricted function is one whose
  properties \<open>arguments\<close> and \<open>caller\<close> must not be read: an arrow function, a method, a
  function of strict code (every function of a module is one) or a built-in function. The
  body is given the declared parameters as the call binds them (\<open>None\<close> where no argument
  was passed) and the whole argument list, and it returns its awaited result or the error
  it throws. An object is given by the properties a lookup finds in it, the inherited ones
  among them.
\<close>

datatype live =
    LUndefined
  | LNull
  | LBoolean bool
  | LNumber jsnumber
  | LBigint int
  | LString string
  | LSymbol string
  | LFunction bool nat "string option list \<Rightarrow> string list \<Rightarrow> error + live"
  | LObject "(string \<times> live) list"

datatype jstype =
  TUndefined | TObject | TBoolean | TNumber | TBigint | TString | TSymbol | TFunction

fun typeof :: "live \<Rightarrow> jstype" where
  "typeof LUndefined = TUndefined"
| "typeof LNull = TObject"
| "typeof (LBoolean b) = TBoolean"
| "typeof (LNumber n) = TNumber"
| "typeof (LBigint i) = TBigint"
| "typeof (LString s) = TString"
| "typeof (LSymbol s) = TSymbol"
| "typeof (LFunction restricted n body) = TFunction"
| "typeof (LObject ps) = TObject"

text \<open>\<open>v == null\<close>: the value is \<open>null\<close> or \<open>undefined\<close>.\<close>

fun isNullish :: "live \<Rightarrow> bool" where
  "isNullish LUndefined = True"
| "isNullish LNull = True"
| "isNullish v = False"

text \<open>A call \<open>f(...args)\<close>: the i-th declared parameter is the i-th argument, if there is one.\<close>

definition callFunction ::
  "nat \<Rightarrow> (string option list \<Rightarrow> string list \<Rightarrow> error + live) \<Rightarrow> string list \<Rightarrow> error + live"
where
  "callFunction n body args = body (map (element args) [0..<n]) args"

text \<open>
  The variable \<open>context\<close> of the walk (the field \<open>currentContext\<close> below) is a live
  value or the instance's own \<open>showHelp\<close>, an arrow function.
  The source reads \<open>context[arg]\<close> on every token, also once the context is terminal,
  where the value read is not used. The read returns the property of an object, or
  \<open>undefined\<close> for a name that is no property of it. On a restricted function the read
  of \<open>arguments\<close> or \<open>caller\<close> throws a \<open>TypeError\<close>; on \<open>null\<close> and \<open>undefined\<close> every
  read throws one. Any other read on a function or a primitive value cannot throw, and
  since its value is not used the model reads \<open>undefined\<close>.
\<close>

datatype walkContext = Live live | ShowHelp

definition RESTRICTED_PROPERTIES :: "string list" where
  "RESTRICTED_PROPERTIES = [''arguments'', ''caller'']"

fun getProperty :: "walkContext \<Rightarrow> string \<Rightarrow> error + live" where
  "getProperty (Live (LObject ps)) arg =
     Inr (case map_of ps arg of Some v \<Rightarrow> v | None \<Rightarrow> LUndefined)"
| "getProperty (Live (LFunction restricted n body)) arg =
     (if restricted \<and> arg \<in> set RESTRICTED_PROPERTIES then Inl TypeError else Inr LUndefined)"
| "getProperty ShowHelp arg =
     (if arg \<in> set RESTRICTED_PROPERTIES then Inl TypeError else Inr LUndefined)"
| "getProperty (Live LUndefined) arg = Inl TypeError"
| "getProperty (Live LNull) arg = Inl TypeError"
| "getProperty c arg = Inr LUndefined"

section \<open>cli.ts: walking the arguments\<close>

definition FLAG_PREFIX :: string where
  "FLAG_PREFIX = ''--''"

record resolver =
  currentContext :: walkContext
  contextDepth :: nat
  contextFinal :: bool
  positionalArgs :: "string list"
  flags :: "(string \<times> string) list"

definition initialResolver :: "(string \<times> live) list \<Rightarrow> resolver" where
  "initialResolver program =
     \<lparr> currentContext = Live (LObject program), contextDepth = 0, contextFinal = False,
       positionalArgs = [], flags = [] \<rparr>"

text \<open>
  The flag branch: \<open>[name, ...values] = arg.substring(FLAG_PREFIX.length).split('=')\<close>,
  then \<open>flags[name] = values.join('=')\<close>. The dictionary \<open>flags\<close> is a plain object, given
  by its own properties in insertion order. The assignment \<open>flags[name] = value\<close> writes an
  own property, except for the name \<open>__proto__\<close>: that assignment goes to the setter every
  object inherits, which ignores a string and leaves the object without the property.
\<close>

definition assignProperty ::
  "string \<Rightarrow> string \<Rightarrow> (string \<times> string) list \<Rightarrow> (string \<times> string) list"
where
  "assignProperty name v obj = (if name = ''__proto__'' then obj else setProperty name v obj)"

definition recordFlag :: "string \<Rightarrow> resolver \<Rightarrow> resolver" where
  "recordFlag arg st =
     (case split (substringFrom arg (length FLAG_PREFIX)) ''='' of
        [] \<Rightarrow> st\<lparr>flags := assignProperty ''undefined'' [] (flags st)\<rparr>
      | name # values \<Rightarrow> st\<lparr>flags := assignProperty name (join ''='' values) (flags st)\<rparr>)"

text \<open>
  One turn of the loop of \<open>runInternal\<close> over \<open>rawArgs\<close>: the new state of the walk, or
  the error thrown by the read of \<open>context[arg]\<close>, which ends the loop.
\<close>

definition step :: "bool \<Rightarrow> resolver \<Rightarrow> string \<Rightarrow> error + resolver" where
  "step autoHelp st arg =
     (if autoHelp \<and> contextDepth st = 0 \<and> toLowerCase arg = ''help'' then
        Inr (st\<lparr>contextDepth := contextDepth st + 1, currentContext := ShowHelp, contextFinal := True\<rparr>)
      else
        case getProperty (currentContext st) arg of
          Inl ex \<Rightarrow> Inl ex
        | Inr contextProp \<Rightarrow>
            Inr (if \<not> contextFinal st \<and> \<not> isNullish contextProp then
                   (case typeof contextProp of
                      TBigint \<Rightarrow> st\<lparr>currentContext := Live contextProp, contextDepth := contextDepth st + 1, contextFinal := True\<rparr>
                    | TBoolean \<Rightarrow> st\<lparr>currentContext := Live contextProp, contextDepth := contextDepth st + 1, contextFinal := True\<rparr>
                    | TNumber \<Rightarrow> st\<lparr>currentContext := Live contextProp, contextDepth := contextDepth st + 1, contextFinal := True\<rparr>
                    | TString \<Rightarrow> st\<lparr>currentContext := Live contextProp, contextDepth := contextDepth st + 1, contextFinal := True\<rparr>
                    | TFunction \<Rightarrow> st\<lparr>currentContext := Live contextProp, contextDepth := contextDepth st + 1, contextFinal := True\<rparr>
                    | TObject \<Rightarrow> st\<lparr>currentContext := Live contextProp, contextDepth := contextDepth st + 1\<rparr>
                    | _ \<Rightarrow> st)
                 else if startsWith arg FLAG_PREFIX then recordFlag arg st
                 else st\<lparr>positionalArgs := positionalArgs st @ [arg]\<rparr>))"

text \<open>The loop: the first error ends it.\<close>

fun walk :: "bool \<Rightarrow> resolver \<Rightarrow> string list \<Rightarrow> error + resolver" where
  "walk autoHelp st [] = Inr st"
| "walk autoHelp st (arg # args) =
     (case step autoHelp st arg of
        Inl ex \<Rightarrow> Inl ex
      | Inr st' \<Rightarrow> walk autoHelp st' args)"

definition resolve :: "bool \<Rightarrow> (string \<times> live) list \<Rightarrow> string list \<Rightarrow> error + resolver" where
  "resolve autoHelp program rawArgs = walk autoHelp (initialResolver program) rawArgs"

text \<open>
  What a run ends in: the value handler is called with a value; nothing is printed;
  \<open>showHelp\<close> is called with a path (what it renders is outside the model);
  \<open>failGracefully\<close> prints an error and exits with a code; or an error is thrown, by
  the loop or by the command.
\<close>

datatype outcome =
    ValueHandled live
  | NoOutput
  | HelpShown "string list"
  | Exited error int
  | Thrown error

definition failGracefully :: "error \<Rightarrow> outcome" where
  "failGracefully ex = Exited ex (case ex of Error m (Some c) \<Rightarrow> c | _ \<Rightarrow> 1)"

text \<open>
  The \<open>switch (typeof context)\<close> that follows the loop: the value handler for a
  bigint, a boolean, a number or a string; the call for a function (\<open>showHelp\<close> is one);
  \<open>failGracefully\<close> for anything else, an object or \<open>null\<close> among them.
\<close>

definition dispatch :: "resolver \<Rightarrow> outcome" where
  "dispatch st =
     (case currentContext st of
        ShowHelp \<Rightarrow> HelpShown (positionalArgs st)
      | Live v \<Rightarrow>
          (case v of
             LBigint i \<Rightarrow> ValueHandled v
           | LBoolean b \<Rightarrow> ValueHandled v
           | LNumber n \<Rightarrow> ValueHandled v
           | LString s \<Rightarrow> ValueHandled v
           | LFunction restricted n body \<Rightarrow>
               (case callFunction n body (positionalArgs st) of
                  Inl ex \<Rightarrow> Thrown ex
                | Inr returnValue \<Rightarrow>
                    if \<not> isNullish returnValue then ValueHandled returnValue else NoOutput)
           | _ \<Rightarrow> failGracefully (Error ''i dunno what to do'' None)))"

section \<open>cli.ts: the instance\<close>

record CliOptions =
  opt_autoHelp :: "bool option"
  opt_commandName :: "string option"
  opt_programInterfaceTsFileName :: "string option"

record Cli =
  program :: "(string \<times> live) list"
  metaInterface :: MetaInterface
  autoHelp :: bool
  commandName :: string
  programInterfaceTsFileName :: "string option"

text \<open>
  The process: the static field \<open>Cli.instance\<close> (\<open>cliInstance\<close>), \<open>process.argv\<close>, and the base name of
  the running script, \<open>path.basename(process.argv[1])\<close>.
\<close>

record process =
  cliInstance :: "Cli option"
  argv :: "string list"
  scriptBaseName :: string

text \<open>
  The constructor: the field initialisers run first (\<open>autoHelp = true\<close>), then
  \<open>Object.assign(this, options)\<close>, then the default of \<open>commandName\<close> where it is still
  undefined or empty. The value handler and the error handler are no fields of the model:
  the outcome of a run says which of them is called, and with what.
\<close>

definition newCli :: "process \<Rightarrow> (string \<times> live) list \<Rightarrow> MetaInterface \<Rightarrow> CliOptions \<Rightarrow> Cli" where
  "newCli proc prog meta options =
     \<lparr> program = prog,
       metaInterface = meta,
       autoHelp = (case opt_autoHelp options of None \<Rightarrow> True | Some b \<Rightarrow> b),
       commandName = (case opt_commandName options of
                        None \<Rightarrow> scriptBaseName proc
                      | Some n \<Rightarrow> if n = [] then scriptBaseName proc else n),
       programInterfaceTsFileName = opt_programInterfaceTsFileName options \<rparr>"

text \<open>\<open>Cli.of\<close>: the result is the new instance, or the exit of \<open>failGracefully\<close>.\<close>

definition Cli_of ::
  "process \<Rightarrow> (string \<times> live) list \<Rightarrow> MetaInterface \<Rightarrow> CliOptions \<Rightarrow> (outcome + Cli) \<times> process"
where
  "Cli_of proc prog meta options =
     (if cliInstance proc \<noteq> None then
        (Inl (failGracefully (Error ''Cli is a singleton, cannot create multiple instances'' None)), proc)
      else
        let inst = newCli proc prog meta options
        in (Inr inst, proc\<lparr>cliInstance := Some inst\<rparr>))"

text \<open>\<open>parseArgs\<close>: the raw arguments follow the runtime path and the script path.\<close>

definition rawArgsOf :: "string list \<Rightarrow> string list" where
  "rawArgsOf av = drop 2 av"

definition runInternal :: "Cli \<Rightarrow> string list \<Rightarrow> outcome" where
  "runInternal this av =
     (case resolve (autoHelp this) (program this) (rawArgsOf av) of
        Inl ex \<Rightarrow> Thrown ex
      | Inr st \<Rightarrow> dispatch st)"

text \<open>A sequence of binding attempts in one process.\<close>

fun bindAll ::
  "process \<Rightarrow> ((string \<times> live) list \<times> MetaInterface \<times> CliOptions) list \<Rightarrow> process"
where
  "bindAll proc [] = proc"
| "bindAll proc ((prog, meta, options) # attempts) =
     bindAll (snd (Cli_of proc prog meta options)) attempts"

section \<open>demo.ts\<close>

text \<open>
  The program of the demonstration, by the members it declares (the names every object
  inherits, such as \<open>toString\<close>, are not listed). Its functions are arrow functions.
  \<open>stuff\<close> and \<open>bar\<close> print and return nothing; \<open>version\<close> returns the package version of
  the instance, or \<open>unknown\<close>.
\<close>

definition demoProgram :: "string option \<Rightarrow> (string \<times> live) list" where
  "demoProgram ver =
     [(''foo'', LObject
         [(''name'', LString ''shawn''),
          (''stuff'', LFunction True 0 (\<lambda>ps args. Inr LUndefined)),
          (''bar'', LFunction True 2 (\<lambda>ps args. Inr LUndefined))]),
      (''goob'', LObject
         [(''middleName'', LString ''cameron''),
          (''lastName'', LString ''tabai'')]),
      (''version'', LFunction True 0
         (\<lambda>ps args. Inr (LString (case ver of None \<Rightarrow> ''unknown'' | Some v \<Rightarrow> v))))]"

definition demoInterface :: MetaInterface where
  "demoInterface = \<lparr> members = [], interfaceDescription = None,
                      packageName = Some ''demo'', packageVersion = None \<rparr>"

definition demoOptions :: CliOptions where
  "demoOptions = \<lparr> opt_autoHelp = Some True, opt_commandName = Some ''demo'',
                    opt_programInterfaceTsFileName = None \<rparr>"

definition demoProcess :: "string list \<Rightarrow> process" where
  "demoProcess args = \<lparr> cliInstance = None, argv = ''bun'' # ''demo.ts'' # args,
                         scriptBaseName = ''demo.ts'' \<rparr>"

definition demoCli :: Cli where
  "demoCli = newCli (demoProcess []) (demoProgram None) demoInterface demoOptions"

section \<open>Navigating\<close>

text \<open>The walk is at an object: the program, or a group below it.\<close>

definition atObject :: "resolver \<Rightarrow> bool" where
  "atObject st = (case currentContext st of Live (LObject ps) \<Rightarrow> True | _ \<Rightarrow> False)"

section \<open>Evaluation lemmas\<close>

lemma parseTypeName_Record_string_number:
  "parseTypeName ''Record<string,number>'' =
     Inr (GenericTypeName ''Record'' [GenericTypeName ''string'' [GenericTypeName ''number'' []]])"
  by (simp add: parseTypeName_def endsWith_def readTypeNameFromReader_def isIdentifierChar_def)

lemma split_entries: "split ''a=1,b=2'' '','' = [''a=1'', ''b=2'']"
  by (simp add: split.simps startsWith_def)

lemma split_single_entry: "split ''a'' '','' = [''a'']"
  by (simp add: split.simps startsWith_def)

lemmas registry_defs =
  parse_def newParserRegistry_def noOptions_def builtinParsers_def
  RECORD_BASE_TYPE_NAMES_def ARRAY_BASE_TYPE_NAMES_def element_def parseRecord_def
  nameOrUndefined_def splitOnceOrZero_def startsWith_def substring_def substringFrom_def
  js_String_def js_Boolean_def identity_def fromEntries_def toPropertyKey_def

section \<open>The type-name parser\<close>

text \<open>
  C1. Parsing \<open>B<T1,...,Tn>\<close> should give \<open>B\<close> the descriptors of \<open>T1\<close> to \<open>Tn\<close> as
  siblings. The code does not: on \<open>Record<string,number>\<close> the nested call that reads
  \<open>string\<close> also takes the comma, so \<open>number\<close> becomes a type parameter of \<open>string\<close>, and
  \<open>Record\<close> is left with a single type parameter instead of the two siblings.
\<close>

theorem parseTypeName_nests_second_parameter:
  "parseTypeName ''Record<string,number>'' =
     Inr (GenericTypeName ''Record'' [GenericTypeName ''string'' [GenericTypeName ''number'' []]])
   \<and> parseTypeName ''Record<string,number>'' \<noteq>
     Inr (GenericTypeName ''Record'' [GenericTypeName ''string'' [], GenericTypeName ''number'' []])"
  by (simp add: parseTypeName_Record_string_number)

section \<open>The coercion registry\<close>

text \<open>
  C2. Coercing \<open>a=1,b=2\<close> at type \<open>Record<string,number>\<close> should give the numbers 1 and 2
  under \<open>a\<close> and \<open>b\<close>. The code gives the strings \<open>1\<close> and \<open>2\<close>: the parsed type name has
  one type parameter only, the value type name is therefore \<open>undefined\<close>, and the coercer
  registered under the name \<open>undefined\<close> is the identity. On the text \<open>a\<close>, which has no
  separator, the value is \<open>undefined\<close> and no coercer is applied to it.
\<close>

theorem parse_record_values_stay_strings:
  "parse rt (newParserRegistry rt noOptions) ''Record<string,number>'' ''a=1,b=2'' =
     Inr (Object [(''a'', String ''1''), (''b'', String ''2'')])
   \<and> parse rt (newParserRegistry rt noOptions) ''Record<string,number>'' ''a'' =
     Inr (Object [(''a'', Undefined)])"
  by (simp add: registry_defs parseTypeName_Record_string_number split_entries split_single_entry)

text \<open>
  C3, as stated, fails: coercing \<open>no\<close> at type \<open>boolean\<close> returns true, and text outside
  the vocabulary does not fail.
\<close>

theorem boolean_coerce_no_is_true:
  "toLowerCase ''no'' \<in> set [''no'', ''0'', ''off'', ''false'']
   \<and> parse plainRuntime (newParserRegistry plainRuntime noOptions) ''boolean'' ''no'' = Inr (Boolean True)
   \<and> toLowerCase ''maybe'' \<notin> set [''yes'', ''1'', ''on'', ''true'', ''no'', ''0'', ''off'', ''false'']
   \<and> parse plainRuntime (newParserRegistry plainRuntime noOptions) ''boolean'' ''maybe'' = Inr (Boolean True)"
  by (simp add: registry_defs toLowerCase_def lowerChar_def)

text \<open>
  C3, amended. Coercing at type \<open>boolean\<close> returns true for text that is, in any case,
  one of \<open>yes\<close>, \<open>1\<close>, \<open>on\<close>, \<open>true\<close>. The rest of the vocabulary is that of
  \<open>booleanFlagValue\<close>, which reads the \<open>DEBUG\<close> flag of the environment: it returns true
  for those four words, false for text that is, in any case, one of \<open>no\<close>, \<open>0\<close>, \<open>off\<close>,
  \<open>false\<close>, and fails for any other text that is not empty; on the empty text it returns
  the default it is given.
\<close>

theorem boolean_vocabulary:
  "(toLowerCase v \<in> set [''yes'', ''1'', ''on'', ''true''] \<longrightarrow>
      parse rt (newParserRegistry rt noOptions) ''boolean'' v = Inr (Boolean True))
   \<and> (toLowerCase v \<in> set [''yes'', ''1'', ''on'', ''true''] \<longrightarrow> booleanFlagValue (Some v) d = Inr True)
   \<and> (toLowerCase v \<in> set [''no'', ''0'', ''off'', ''false''] \<longrightarrow> booleanFlagValue (Some v) d = Inr False)
   \<and> (v \<noteq> [] \<and> toLowerCase v \<notin> set [''yes'', ''1'', ''on'', ''true'', ''no'', ''0'', ''off'', ''false'']
        \<longrightarrow> isl (booleanFlagValue (Some v) d))
   \<and> (v = [] \<longrightarrow> booleanFlagValue (Some v) d = Inr d)"
proof -
  have coerce: "parse rt (newParserRegistry rt noOptions) ''boolean'' v = Inr (Boolean (v \<noteq> []))"
    by (simp add: registry_defs)
  have yes: "toLowerCase v \<in> set [''yes'', ''1'', ''on'', ''true''] \<Longrightarrow> v \<noteq> []"
    by (auto simp: toLowerCase_def)
  have no: "toLowerCase v \<in> set [''no'', ''0'', ''off'', ''false''] \<Longrightarrow> v \<noteq> []"
    by (auto simp: toLowerCase_def)
  show ?thesis
    using yes no
    by (auto simp: coerce booleanFlagValue_def FLAG_NO_VALUES_def FLAG_YES_VALUES_def Let_def)
qed

theorem boolean_vocabulary_witness:
  "toLowerCase ''YES'' \<in> set [''yes'', ''1'', ''on'', ''true'']
   \<and> parse plainRuntime (newParserRegistry plainRuntime noOptions) ''boolean'' ''YES'' = Inr (Boolean True)
   \<and> booleanFlagValue (Some ''YES'') False = Inr True
   \<and> toLowerCase ''Off'' \<in> set [''no'', ''0'', ''off'', ''false'']
   \<and> booleanFlagValue (Some ''Off'') True = Inr False
   \<and> toLowerCase ''maybe'' \<notin> set [''yes'', ''1'', ''on'', ''true'', ''no'', ''0'', ''off'', ''false'']
   \<and> isl (booleanFlagValue (Some ''maybe'') True)
   \<and> booleanFlagValue (Some []) True = Inr True"
proof -
  have y: "toLowerCase ''YES'' \<in> set [''yes'', ''1'', ''on'', ''true'']"
    by (simp add: toLowerCase_def lowerChar_def)
  have n: "toLowerCase ''Off'' \<in> set [''no'', ''0'', ''off'', ''false'']"
    by (simp add: toLowerCase_def lowerChar_def)
  have m: "''maybe'' \<noteq> [] \<and> toLowerCase ''maybe'' \<notin> set [''yes'', ''1'', ''on'', ''true'', ''no'', ''0'', ''off'', ''false'']"
    by (simp add: toLowerCase_def lowerChar_def)
  from boolean_vocabulary [of "''YES''" plainRuntime False] y
  have a: "parse plainRuntime (newParserRegistry plainRuntime noOptions) ''boolean'' ''YES'' = Inr (Boolean True)"
    and b: "booleanFlagValue (Some ''YES'') False = Inr True"
    by blast+
  from boolean_vocabulary [of "''Off''" plainRuntime True] n
  have c: "booleanFlagValue (Some ''Off'') True = Inr False"
    by blast
  from boolean_vocabulary [of "''maybe''" plainRuntime True] m
  have d: "isl (booleanFlagValue (Some ''maybe'') True)"
    by blast
  from boolean_vocabulary [of "[]" plainRuntime True]
  have e: "booleanFlagValue (Some []) True = Inr True"
    by blast
  from y n m a b c d e show ?thesis
    by (intro conjI) blast+
qed

section \<open>The walk over the arguments\<close>

lemma startsWith_flag_not_help: "startsWith arg FLAG_PREFIX \<Longrightarrow> toLowerCase arg \<noteq> ''help''"
  by (cases arg) (auto simp: startsWith_def FLAG_PREFIX_def toLowerCase_def lowerChar_def)

lemma typeof_object: "typeof v = TObject \<Longrightarrow> \<not> isNullish v \<Longrightarrow> \<exists>ps. v = LObject ps"
  by (cases v) auto

lemma step_atObject:
  "contextFinal st \<or> atObject st \<Longrightarrow> step ah st arg = Inr st' \<Longrightarrow>
   contextFinal st' \<or> atObject st'"
  unfolding atObject_def step_def recordFlag_def
  by (auto split: if_splits sum.splits jstype.splits list.splits dest: typeof_object)

lemma walk_atObject:
  "contextFinal st \<or> atObject st \<Longrightarrow> walk ah st args = Inr st' \<Longrightarrow>
   contextFinal st' \<or> atObject st'"
proof (induction args arbitrary: st)
  case Nil
  then show ?case by simp
next
  case (Cons a args)
  from Cons.prems(2) obtain st1 where s: "step ah st a = Inr st1" and w: "walk ah st1 args = Inr st'"
    by (auto split: sum.splits)
  from Cons.prems(1) s have "contextFinal st1 \<or> atObject st1"
    by (rule step_atObject)
  from Cons.IH[OF this w] show ?case .
qed

lemma resolve_atObject:
  "resolve ah prog args = Inr st \<Longrightarrow> contextFinal st \<or> atObject st"
  unfolding resolve_def
  by (rule walk_atObject[where st = "initialResolver prog"])
     (simp_all add: atObject_def initialResolver_def)

lemma step_ShowHelp:
  "step ah st arg = Inr st' \<Longrightarrow> currentContext st' = ShowHelp \<Longrightarrow>
   currentContext st = ShowHelp \<or> (ah \<and> toLowerCase arg = ''help'')"
  unfolding step_def recordFlag_def
  by (auto split: if_splits sum.splits jstype.splits list.splits)

lemma walk_ShowHelp:
  "walk ah st args = Inr st' \<Longrightarrow> currentContext st' = ShowHelp \<Longrightarrow>
   currentContext st = ShowHelp \<or> (ah \<and> (\<exists>a\<in>set args. toLowerCase a = ''help''))"
proof (induction args arbitrary: st)
  case Nil
  then show ?case by simp
next
  case (Cons a args)
  from Cons.prems(1) obtain st1 where s: "step ah st a = Inr st1" and w: "walk ah st1 args = Inr st'"
    by (auto split: sum.splits)
  from Cons.IH[OF w Cons.prems(2)]
  have "currentContext st1 = ShowHelp \<or> (ah \<and> (\<exists>a\<in>set args. toLowerCase a = ''help''))" .
  then show ?case
  proof
    assume "currentContext st1 = ShowHelp"
    from step_ShowHelp[OF s this] show ?thesis by auto
  next
    assume "ah \<and> (\<exists>a\<in>set args. toLowerCase a = ''help'')"
    then show ?thesis by auto
  qed
qed

lemma dispatch_HelpShown: "dispatch st = HelpShown p \<Longrightarrow> currentContext st = ShowHelp"
  unfolding dispatch_def failGracefully_def
  by (auto split: walkContext.splits live.splits sum.splits if_splits)

lemma demoCli_fields: "autoHelp demoCli = True" "program demoCli = demoProgram None"
  by (simp_all add: demoCli_def newCli_def demoOptions_def)

lemma lower_foo: "toLowerCase ''foo'' \<noteq> ''help''"
  by (simp add: toLowerCase_def lowerChar_def)

lemma lower_bogus: "toLowerCase ''bogus'' \<noteq> ''help''"
  by (simp add: toLowerCase_def lowerChar_def)

lemma lower_version: "toLowerCase ''version'' \<noteq> ''help''"
  by (simp add: toLowerCase_def lowerChar_def)

lemma lower_help: "toLowerCase ''help'' = ''help''"
  by (simp add: toLowerCase_def lowerChar_def)

lemma resolve_foo:
  "resolve True (demoProgram None) [''foo''] =
     Inr \<lparr> currentContext = Live (LObject
         [(''name'', LString ''shawn''),
          (''stuff'', LFunction True 0 (\<lambda>ps args. Inr LUndefined)),
          (''bar'', LFunction True 2 (\<lambda>ps args. Inr LUndefined))]),
       contextDepth = 1, contextFinal = False, positionalArgs = [], flags = [] \<rparr>"
  by (simp add: resolve_def step_def initialResolver_def demoProgram_def lower_foo)

lemma resolve_bogus_version:
  "resolve True (demoProgram None) [''bogus'', ''version''] =
     Inr \<lparr> currentContext = Live (LFunction True 0 (\<lambda>ps args. Inr (LString ''unknown''))),
       contextDepth = 1, contextFinal = True, positionalArgs = [''bogus''], flags = [] \<rparr>"
  by (simp add: resolve_def step_def initialResolver_def demoProgram_def lower_bogus lower_version
      startsWith_def FLAG_PREFIX_def)

lemma resolve_help_foo:
  "resolve True (demoProgram None) [''help'', ''foo''] =
     Inr \<lparr> currentContext = ShowHelp, contextDepth = 1, contextFinal = True,
       positionalArgs = [''foo''], flags = [] \<rparr>"
  by (simp add: resolve_def step_def initialResolver_def lower_help lower_foo
      startsWith_def FLAG_PREFIX_def RESTRICTED_PROPERTIES_def)

text \<open>
  C4, as stated, fails: with the demonstration program the arguments \<open>foo\<close> end at the
  group \<open>foo\<close>, and the run exits with an error instead of showing help for the group.
\<close>

theorem group_end_exits_with_error:
  "(case resolve (autoHelp demoCli) (program demoCli) (rawArgsOf [''bun'', ''demo.ts'', ''foo'']) of
      Inl ex \<Rightarrow> False
    | Inr st \<Rightarrow> contextFinal st = False \<and> atObject st)
   \<and> runInternal demoCli [''bun'', ''demo.ts'', ''foo''] = Exited (Error ''i dunno what to do'' None) 1
   \<and> runInternal demoCli [''bun'', ''demo.ts'', ''foo''] \<noteq> HelpShown [''foo'']"
  by (simp add: runInternal_def demoCli_fields rawArgsOf_def resolve_foo atObject_def
      dispatch_def failGracefully_def)

text \<open>
  C4, amended. When the arguments are all consumed and the walk has not reached a
  terminal context, the context is an object (the program or a group), and the run ends
  in \<open>failGracefully\<close> with the error \<open>i dunno what to do\<close> and exit code 1; no help is
  shown. Help is shown only through the help keyword: a run that ends in \<open>showHelp\<close> has
  \<open>autoHelp\<close> set and an argument that is \<open>help\<close> in some case.
\<close>

theorem navigating_end_exits:
  "(\<forall>st. resolve (autoHelp this) (program this) (rawArgsOf av) = Inr st \<longrightarrow> \<not> contextFinal st \<longrightarrow>
        atObject st \<and> runInternal this av = Exited (Error ''i dunno what to do'' None) 1)
   \<and> (\<forall>p. runInternal this av = HelpShown p \<longrightarrow>
        autoHelp this \<and> (\<exists>a\<in>set (rawArgsOf av). toLowerCase a = ''help''))"
proof (intro conjI allI impI)
  fix st
  assume r: "resolve (autoHelp this) (program this) (rawArgsOf av) = Inr st"
    and nav: "\<not> contextFinal st"
  from resolve_atObject[OF r] nav show obj: "atObject st"
    by simp
  from obj r show "runInternal this av = Exited (Error ''i dunno what to do'' None) 1"
    by (auto simp: atObject_def runInternal_def dispatch_def failGracefully_def
        split: walkContext.splits live.splits)
next
  fix p
  assume h: "runInternal this av = HelpShown p"
  then obtain st where r: "resolve (autoHelp this) (program this) (rawArgsOf av) = Inr st"
    and d: "dispatch st = HelpShown p"
    by (auto simp: runInternal_def split: sum.splits)
  from d have "currentContext st = ShowHelp"
    by (rule dispatch_HelpShown)
  with walk_ShowHelp[OF r[unfolded resolve_def]]
  have "currentContext (initialResolver (program this)) = ShowHelp
      \<or> (autoHelp this \<and> (\<exists>a\<in>set (rawArgsOf av). toLowerCase a = ''help''))"
    by simp
  then show "autoHelp this" and "\<exists>a\<in>set (rawArgsOf av). toLowerCase a = ''help''"
    by (simp_all add: initialResolver_def)
qed

theorem navigating_end_exits_witness:
  "(case resolve (autoHelp demoCli) (program demoCli) (rawArgsOf [''bun'', ''demo.ts'', ''foo'']) of
      Inl ex \<Rightarrow> False
    | Inr st \<Rightarrow> contextFinal st = False \<and> atObject st)
   \<and> runInternal demoCli [''bun'', ''demo.ts'', ''foo''] = Exited (Error ''i dunno what to do'' None) 1
   \<and> runInternal demoCli [''bun'', ''demo.ts'', ''help'', ''foo''] = HelpShown [''foo'']
   \<and> autoHelp demoCli
   \<and> (\<exists>a\<in>set (rawArgsOf [''bun'', ''demo.ts'', ''help'', ''foo'']). toLowerCase a = ''help'')"
proof -
  let ?foo = "\<lparr> currentContext = Live (LObject
         [(''name'', LString ''shawn''),
          (''stuff'', LFunction True 0 (\<lambda>ps args. Inr LUndefined)),
          (''bar'', LFunction True 2 (\<lambda>ps args. Inr LUndefined))]),
       contextDepth = 1, contextFinal = False, positionalArgs = [], flags = [] \<rparr>"
  have r: "resolve (autoHelp demoCli) (program demoCli) (rawArgsOf [''bun'', ''demo.ts'', ''foo'']) = Inr ?foo"
    by (simp add: demoCli_fields rawArgsOf_def resolve_foo)
  have nav: "\<not> contextFinal ?foo"
    by simp
  from navigating_end_exits[of demoCli "[''bun'', ''demo.ts'', ''foo'']"] r nav
  have a: "atObject ?foo"
    and b: "runInternal demoCli [''bun'', ''demo.ts'', ''foo''] = Exited (Error ''i dunno what to do'' None) 1"
    by blast+
  have h: "runInternal demoCli [''bun'', ''demo.ts'', ''help'', ''foo''] = HelpShown [''foo'']"
    by (simp add: runInternal_def demoCli_fields rawArgsOf_def resolve_help_foo dispatch_def)
  from navigating_end_exits[of demoCli "[''bun'', ''demo.ts'', ''help'', ''foo'']"] h
  have c: "autoHelp demoCli"
    and d: "\<exists>a\<in>set (rawArgsOf [''bun'', ''demo.ts'', ''help'', ''foo'']). toLowerCase a = ''help''"
    by blast+
  from r a b h c d show ?thesis
    by simp
qed

text \<open>
  C5, as stated, fails: \<open>bogus\<close> names no member of the program, is no flag and is not
  the help keyword, and the run of \<open>bogus version\<close> ends without any error: \<open>version\<close> is
  called and its result is handed to the value handler.
\<close>

theorem unmatched_token_no_error:
  "getProperty (currentContext (initialResolver (program demoCli))) ''bogus'' = Inr LUndefined
   \<and> startsWith ''bogus'' FLAG_PREFIX = False
   \<and> toLowerCase ''bogus'' \<noteq> ''help''
   \<and> runInternal demoCli [''bun'', ''demo.ts'', ''bogus'', ''version''] = ValueHandled (LString ''unknown'')"
proof -
  have "getProperty (currentContext (initialResolver (program demoCli))) ''bogus'' = Inr LUndefined"
    by (simp add: demoCli_fields initialResolver_def demoProgram_def)
  moreover have "startsWith ''bogus'' FLAG_PREFIX = False"
    by (simp add: startsWith_def FLAG_PREFIX_def)
  moreover have "runInternal demoCli [''bun'', ''demo.ts'', ''bogus'', ''version''] = ValueHandled (LString ''unknown'')"
    by (simp add: runInternal_def demoCli_fields rawArgsOf_def resolve_bogus_version
        dispatch_def callFunction_def)
  ultimately show ?thesis using lower_bogus by simp
qed

text \<open>
  C5, amended. While the walk has not reached a terminal context, a token that names no
  member of the current object (or a member that is null or undefined), does not start
  with the flag prefix and is not consumed as the help keyword is appended to the
  positional arguments; the context, the depth and the flags stay as they are, and no
  error is raised.
\<close>

theorem unmatched_token_is_positional:
  "\<not> contextFinal st \<Longrightarrow> getProperty (currentContext st) arg = Inr v \<Longrightarrow> isNullish v \<Longrightarrow>
   \<not> startsWith arg FLAG_PREFIX \<Longrightarrow>
   \<not> (ah \<and> contextDepth st = 0 \<and> toLowerCase arg = ''help'') \<Longrightarrow>
   step ah st arg = Inr (st\<lparr>positionalArgs := positionalArgs st @ [arg]\<rparr>)"
  by (auto simp: step_def)

theorem unmatched_token_is_positional_witness:
  "\<not> contextFinal (initialResolver (demoProgram None))
   \<and> getProperty (currentContext (initialResolver (demoProgram None))) ''bogus'' = Inr LUndefined
   \<and> isNullish LUndefined
   \<and> \<not> startsWith ''bogus'' FLAG_PREFIX
   \<and> \<not> (True \<and> contextDepth (initialResolver (demoProgram None)) = 0 \<and> toLowerCase ''bogus'' = ''help'')
   \<and> step True (initialResolver (demoProgram None)) ''bogus'' =
       Inr ((initialResolver (demoProgram None))\<lparr>positionalArgs := [''bogus'']\<rparr>)"
proof -
  have h1: "\<not> contextFinal (initialResolver (demoProgram None))"
    by (simp add: initialResolver_def)
  have h2: "getProperty (currentContext (initialResolver (demoProgram None))) ''bogus'' = Inr LUndefined"
    by (simp add: initialResolver_def demoProgram_def)
  have h3: "isNullish LUndefined"
    by simp
  have h4: "\<not> startsWith ''bogus'' FLAG_PREFIX"
    by (simp add: startsWith_def FLAG_PREFIX_def)
  have h5: "\<not> (True \<and> contextDepth (initialResolver (demoProgram None)) = 0 \<and> toLowerCase ''bogus'' = ''help'')"
    by (simp add: lower_bogus)
  have h6: "positionalArgs (initialResolver (demoProgram None)) = []"
    by (simp add: initialResolver_def)
  from unmatched_token_is_positional[OF h1 h2 h3 h4 h5] h1 h2 h3 h4 h5 h6 show ?thesis
    by simp
qed

section \<open>Flags\<close>

lemma startsWith_single: "startsWith (a # s) [c] \<longleftrightarrow> a = c"
  by (simp add: startsWith_def)

lemma indexOf_Nil_single: "indexOf [] [c] = None"
  by simp

lemma indexOf_Cons_single:
  "indexOf (a # s) [c] = (if a = c then Some 0 else map_option Suc (indexOf s [c]))"
  by (simp only: indexOf.simps startsWith_single)

lemma indexOf_single:
  "indexOf s [c] = (if c \<in> set s then Some (length (takeWhile (\<lambda>x. x \<noteq> c) s)) else None)"
proof (induction s)
  case Nil
  show ?case by (simp only: indexOf_Nil_single) simp
next
  case (Cons a s)
  show ?case
    unfolding indexOf_Cons_single Cons.IH by auto
qed

lemma no_separator:
  "c \<notin> set s \<Longrightarrow> dropWhile (\<lambda>x. x \<noteq> c) s = [] \<and> takeWhile (\<lambda>x. x \<noteq> c) s = s"
  by (induction s) auto

lemma at_separator:
  "c \<in> set s \<Longrightarrow> dropWhile (\<lambda>x. x \<noteq> c) s = c # drop 1 (dropWhile (\<lambda>x. x \<noteq> c) s)"
  by (induction s) auto

lemma split_without_separator: "c \<notin> set s \<Longrightarrow> split s [c] = [s]"
  by (simp add: split.simps indexOf_single)

lemma split_at_separator:
  "c \<in> set s \<Longrightarrow>
   split s [c] = takeWhile (\<lambda>x. x \<noteq> c) s # split (drop 1 (dropWhile (\<lambda>x. x \<noteq> c) s)) [c]"
proof -
  assume mem: "c \<in> set s"
  let ?i = "length (takeWhile (\<lambda>x. x \<noteq> c) s)"
  have t: "take ?i s = takeWhile (\<lambda>x. x \<noteq> c) s"
    by (rule takeWhile_eq_take[symmetric])
  have "drop 1 (dropWhile (\<lambda>x. x \<noteq> c) s) = drop 1 (drop ?i s)"
    by (simp only: dropWhile_eq_drop[symmetric])
  then have d: "drop (?i + length [c]) s = drop 1 (dropWhile (\<lambda>x. x \<noteq> c) s)"
    by (simp add: add.commute)
  from mem have "split s [c] = take ?i s # split (drop (?i + length [c]) s) [c]"
    by (subst split.simps) (simp add: indexOf_single)
  then show ?thesis
    by (simp only: t d)
qed

lemma split_not_Nil: "split s [c] \<noteq> []"
  by (cases "c \<in> set s") (simp_all add: split_without_separator split_at_separator)

lemma join_Cons: "ys \<noteq> [] \<Longrightarrow> join sep (x # ys) = x @ sep @ join sep ys"
  by (cases ys) simp_all

lemma join_split_single: "join [c] (split s [c]) = s"
proof (induction "length s" arbitrary: s rule: less_induct)
  case less
  show ?case
  proof (cases "c \<in> set s")
    case False
    then show ?thesis by (simp add: split_without_separator)
  next
    case True
    let ?rest = "drop 1 (dropWhile (\<lambda>x. x \<noteq> c) s)"
    from True have dw: "dropWhile (\<lambda>x. x \<noteq> c) s = c # ?rest"
      by (rule at_separator)
    have "length (dropWhile (\<lambda>x. x \<noteq> c) s) \<le> length s"
      by (rule length_dropWhile_le)
    moreover from dw have "length (dropWhile (\<lambda>x. x \<noteq> c) s) = Suc (length ?rest)"
      by (metis length_Cons)
    ultimately have "length ?rest < length s"
      by linarith
    then have IH: "join [c] (split ?rest [c]) = ?rest"
      by (rule less.hyps)
    have "join [c] (split s [c]) = takeWhile (\<lambda>x. x \<noteq> c) s @ [c] @ join [c] (split ?rest [c])"
      using True by (simp add: split_at_separator join_Cons split_not_Nil)
    also have "\<dots> = takeWhile (\<lambda>x. x \<noteq> c) s @ dropWhile (\<lambda>x. x \<noteq> c) s"
      using IH dw by simp
    finally show ?thesis by simp
  qed
qed

lemma map_of_setProperty: "map_of (setProperty k v ps) = (map_of ps)(k \<mapsto> v)"
  by (induction ps) (auto simp: fun_upd_twist)

lemma recordFlag_name_value:
  "recordFlag arg st =
     st\<lparr>flags := assignProperty (takeWhile (\<lambda>c. c \<noteq> CHR ''='') (drop 2 arg))
                     (drop 1 (dropWhile (\<lambda>c. c \<noteq> CHR ''='') (drop 2 arg))) (flags st)\<rparr>"
proof -
  define body where "body = drop 2 arg"
  have "length FLAG_PREFIX = 2"
    by (simp add: FLAG_PREFIX_def)
  then have sub: "substringFrom arg (length FLAG_PREFIX) = body"
    by (simp only: substringFrom_def body_def)
  have "(case split body ''='' of
           [] \<Rightarrow> st\<lparr>flags := assignProperty ''undefined'' [] (flags st)\<rparr>
         | name # values \<Rightarrow> st\<lparr>flags := assignProperty name (join ''='' values) (flags st)\<rparr>) =
        st\<lparr>flags := assignProperty (takeWhile (\<lambda>c. c \<noteq> CHR ''='') body)
                     (drop 1 (dropWhile (\<lambda>c. c \<noteq> CHR ''='') body)) (flags st)\<rparr>"
  proof (cases "CHR ''='' \<in> set body")
    case True
    then show ?thesis
      by (simp only: split_at_separator list.case join_split_single)
  next
    case False
    then show ?thesis
      by (simp add: split_without_separator no_separator)
  qed
  then show ?thesis
    unfolding recordFlag_def sub body_def .
qed

lemma step_flag:
  "startsWith arg FLAG_PREFIX \<Longrightarrow> getProperty (currentContext st) arg = Inr v \<Longrightarrow>
   contextFinal st \<or> isNullish v \<Longrightarrow> step ah st arg = Inr (recordFlag arg st)"
proof -
  assume flag: "startsWith arg FLAG_PREFIX"
    and rd: "getProperty (currentContext st) arg = Inr v"
    and free: "contextFinal st \<or> isNullish v"
  from flag have nohelp: "toLowerCase arg \<noteq> ''help''"
    by (rule startsWith_flag_not_help)
  from free have nomember: "\<not> (\<not> contextFinal st \<and> \<not> isNullish v)"
    by blast
  show ?thesis
    unfolding step_def rd by (simp only: nohelp nomember flag simp_thms if_False if_True sum.case)
qed

text \<open>
  What the flag branch does for every name but \<open>__proto__\<close>: a token that starts with the
  flag prefix and is not consumed as a member of the tree (the context is terminal, or the
  token names no member, or one that is null or undefined) records a flag. Its name is
  the text between the prefix and the first \<open>=\<close>, its value everything after that first
  \<open>=\<close>, later \<open>=\<close> included, and the empty string when there is no \<open>=\<close>. Afterwards the
  flags hold that value under that name and what they held under every other name.
\<close>

lemma flag_name_and_value:
  assumes "startsWith arg FLAG_PREFIX"
    and "getProperty (currentContext st) arg = Inr v"
    and "contextFinal st \<or> isNullish v"
    and "name = takeWhile (\<lambda>c. c \<noteq> CHR ''='') (drop (length FLAG_PREFIX) arg)"
    and "val = drop 1 (dropWhile (\<lambda>c. c \<noteq> CHR ''='') (drop (length FLAG_PREFIX) arg))"
    and "name \<noteq> ''__proto__''"
  shows "step ah st arg = Inr (st\<lparr>flags := setProperty name val (flags st)\<rparr>)"
    and "map_of (setProperty name val (flags st)) name = Some val"
    and "k \<noteq> name \<Longrightarrow> map_of (setProperty name val (flags st)) k = map_of (flags st) k"
    and "CHR ''='' \<notin> set (drop (length FLAG_PREFIX) arg) \<Longrightarrow>
           name = drop (length FLAG_PREFIX) arg \<and> val = []"
proof -
  have len: "length FLAG_PREFIX = 2"
    by (simp add: FLAG_PREFIX_def)
  from assms(4,5) have nv: "name = takeWhile (\<lambda>c. c \<noteq> CHR ''='') (drop 2 arg)"
      "val = drop 1 (dropWhile (\<lambda>c. c \<noteq> CHR ''='') (drop 2 arg))"
    by (simp_all only: len)
  have "step ah st arg = Inr (recordFlag arg st)"
    using assms(1,2,3) by (rule step_flag)
  also have "recordFlag arg st = st\<lparr>flags := assignProperty name val (flags st)\<rparr>"
    by (simp only: recordFlag_name_value nv)
  also have "assignProperty name val (flags st) = setProperty name val (flags st)"
    using assms(6) by (simp add: assignProperty_def)
  finally show "step ah st arg = Inr (st\<lparr>flags := setProperty name val (flags st)\<rparr>)" .
  show "map_of (setProperty name val (flags st)) name = Some val"
    by (simp add: map_of_setProperty)
  show "map_of (setProperty name val (flags st)) k = map_of (flags st) k" if "k \<noteq> name"
    using that by (simp add: map_of_setProperty)
  show "name = drop (length FLAG_PREFIX) arg \<and> val = []"
    if "CHR ''='' \<notin> set (drop (length FLAG_PREFIX) arg)"
  proof -
    from that have "CHR ''='' \<notin> set (drop 2 arg)"
      unfolding len .
    from no_separator[OF this]
    have d: "dropWhile (\<lambda>c. c \<noteq> CHR ''='') (drop 2 arg) = []"
      and t: "takeWhile (\<lambda>c. c \<noteq> CHR ''='') (drop 2 arg) = drop 2 arg"
      by blast+
    have e: "drop 1 ([] :: string) = []"
      by simp
    show ?thesis
      by (simp only: nv d t e len simp_thms)
  qed
qed

lemma flag_examples:
  "step True (initialResolver (demoProgram None)) ''--x=a=b'' =
     Inr ((initialResolver (demoProgram None))\<lparr>flags := [(''x'', ''a=b'')]\<rparr>)"
  "step True (initialResolver (demoProgram None)) ''--x'' =
     Inr ((initialResolver (demoProgram None))\<lparr>flags := [(''x'', [])]\<rparr>)"
proof -
  have g: "\<And>a. getProperty (currentContext (initialResolver (demoProgram None))) a =
      Inr (case map_of (demoProgram None) a of Some v \<Rightarrow> v | None \<Rightarrow> LUndefined)"
    by (simp add: initialResolver_def)
  have fl: "flags (initialResolver (demoProgram None)) = []"
    by (simp add: initialResolver_def)
  have n1: "isNullish (case map_of (demoProgram None) ''--x=a=b'' of Some v \<Rightarrow> v | None \<Rightarrow> LUndefined)"
    and n2: "isNullish (case map_of (demoProgram None) ''--x'' of Some v \<Rightarrow> v | None \<Rightarrow> LUndefined)"
    by (simp_all add: demoProgram_def)
  have f1: "startsWith ''--x=a=b'' FLAG_PREFIX" and f2: "startsWith ''--x'' FLAG_PREFIX"
    by (simp_all add: startsWith_def FLAG_PREFIX_def)
  from flag_name_and_value(1)[OF f1 g disjI2, OF n1 refl refl, of True]
  show "step True (initialResolver (demoProgram None)) ''--x=a=b'' =
     Inr ((initialResolver (demoProgram None))\<lparr>flags := [(''x'', ''a=b'')]\<rparr>)"
    by (simp add: FLAG_PREFIX_def fl)
  from flag_name_and_value(1)[OF f2 g disjI2, OF n2 refl refl, of True]
  show "step True (initialResolver (demoProgram None)) ''--x'' =
     Inr ((initialResolver (demoProgram None))\<lparr>flags := [(''x'', [])]\<rparr>)"
    by (simp add: FLAG_PREFIX_def fl)
qed

text \<open>
  C6. Every token classified as a flag should record, under the text between the prefix
  and the first \<open>=\<close>, the text after that first \<open>=\<close>. The code does not for the name
  \<open>__proto__\<close>: the token \<open>--__proto__=x\<close> starts with the flag prefix and names no member
  of the program, so it is classified as a flag, and after it the flags are as empty as
  before, with nothing under \<open>__proto__\<close>. A token with another name is recorded: after
  \<open>--x=a=b\<close> the flags hold \<open>a=b\<close> under \<open>x\<close>.
\<close>

theorem proto_flag_is_not_recorded:
  "startsWith ''--__proto__=x'' FLAG_PREFIX
   \<and> getProperty (currentContext (initialResolver (demoProgram None))) ''--__proto__=x'' = Inr LUndefined
   \<and> takeWhile (\<lambda>c. c \<noteq> CHR ''='') (drop (length FLAG_PREFIX) ''--__proto__=x'') = ''__proto__''
   \<and> step True (initialResolver (demoProgram None)) ''--__proto__=x'' =
       Inr (initialResolver (demoProgram None))
   \<and> map_of (flags (initialResolver (demoProgram None))) ''__proto__'' = None
   \<and> step True (initialResolver (demoProgram None)) ''--x=a=b'' =
       Inr ((initialResolver (demoProgram None))\<lparr>flags := [(''x'', ''a=b'')]\<rparr>)"
proof -
  have f: "startsWith ''--__proto__=x'' FLAG_PREFIX"
    by (simp add: startsWith_def FLAG_PREFIX_def)
  have g: "getProperty (currentContext (initialResolver (demoProgram None))) ''--__proto__=x'' = Inr LUndefined"
    by (simp add: initialResolver_def demoProgram_def)
  have n: "takeWhile (\<lambda>c. c \<noteq> CHR ''='') (drop (length FLAG_PREFIX) ''--__proto__=x'') = ''__proto__''"
    by (simp add: FLAG_PREFIX_def)
  have "step True (initialResolver (demoProgram None)) ''--__proto__=x'' =
       Inr (recordFlag ''--__proto__=x'' (initialResolver (demoProgram None)))"
    using f g by (rule step_flag) simp
  also have "recordFlag ''--__proto__=x'' (initialResolver (demoProgram None)) =
       initialResolver (demoProgram None)"
    by (simp add: recordFlag_name_value assignProperty_def)
  finally have s: "step True (initialResolver (demoProgram None)) ''--__proto__=x'' =
       Inr (initialResolver (demoProgram None))" .
  have e: "map_of (flags (initialResolver (demoProgram None))) ''__proto__'' = None"
    by (simp add: initialResolver_def)
  from f g n s e flag_examples(1) show ?thesis
    by (intro conjI)
qed

section \<open>Calling the command\<close>

lemma step_terminal:
  "contextFinal st \<Longrightarrow> 0 < contextDepth st \<Longrightarrow> getProperty (currentContext st) arg = Inr v \<Longrightarrow>
   step ah st arg =
     Inr (if startsWith arg FLAG_PREFIX then recordFlag arg st
          else st\<lparr>positionalArgs := positionalArgs st @ [arg]\<rparr>)"
  by (simp add: step_def)

lemma getProperty_function:
  "\<not> (restricted \<and> arg \<in> set RESTRICTED_PROPERTIES) \<Longrightarrow>
   getProperty (Live (LFunction restricted n body)) arg = Inr LUndefined"
  by auto

lemma getProperty_restricted:
  "arg \<in> set RESTRICTED_PROPERTIES \<Longrightarrow>
   getProperty (Live (LFunction True n body)) arg = Inl TypeError"
  by simp

lemma walk_at_function:
  "contextFinal st \<Longrightarrow> 0 < contextDepth st \<Longrightarrow>
   currentContext st = Live (LFunction restricted n body) \<Longrightarrow>
   \<not> (restricted \<and> (\<exists>a\<in>set args. a \<in> set RESTRICTED_PROPERTIES)) \<Longrightarrow>
   \<exists>st'. walk ah st args = Inr st'
     \<and> currentContext st' = currentContext st
     \<and> positionalArgs st' = positionalArgs st @ filter (\<lambda>a. \<not> startsWith a FLAG_PREFIX) args"
proof (induction args arbitrary: st)
  case Nil
  show ?case by simp
next
  case (Cons a args)
  from Cons.prems(4) have ok: "\<not> (restricted \<and> a \<in> set RESTRICTED_PROPERTIES)"
    and rest: "\<not> (restricted \<and> (\<exists>a\<in>set args. a \<in> set RESTRICTED_PROPERTIES))"
    by auto
  let ?st1 = "if startsWith a FLAG_PREFIX then recordFlag a st
              else st\<lparr>positionalArgs := positionalArgs st @ [a]\<rparr>"
  from ok have "getProperty (Live (LFunction restricted n body)) a = Inr LUndefined"
    by (rule getProperty_function)
  then have "getProperty (currentContext st) a = Inr LUndefined"
    by (simp only: Cons.prems(3))
  with Cons.prems(1,2) have s: "step ah st a = Inr ?st1"
    by (rule step_terminal)
  have f: "contextFinal ?st1" "0 < contextDepth ?st1"
    "currentContext ?st1 = currentContext st"
    "positionalArgs ?st1 = positionalArgs st @ filter (\<lambda>a. \<not> startsWith a FLAG_PREFIX) [a]"
    using Cons.prems(1,2) by (simp_all add: recordFlag_name_value)
  from f(3) Cons.prems(3) have c: "currentContext ?st1 = Live (LFunction restricted n body)"
    by simp
  from Cons.IH[OF f(1) f(2) c rest] obtain st' where
    w: "walk ah ?st1 args = Inr st'"
    and c': "currentContext st' = currentContext ?st1"
    and p': "positionalArgs st' = positionalArgs ?st1 @ filter (\<lambda>a. \<not> startsWith a FLAG_PREFIX) args"
    by blast
  have "walk ah st (a # args) = Inr st'"
    by (simp only: walk.simps s sum.case w)
  moreover have "currentContext st' = currentContext st"
    by (simp only: c' f(3))
  moreover have "positionalArgs st' = positionalArgs st @ filter (\<lambda>a. \<not> startsWith a FLAG_PREFIX) (a # args)"
    by (simp only: p' f(4)) simp
  ultimately show ?case by blast
qed

lemma walk_append:
  "walk ah st pre = Inr st1 \<Longrightarrow> walk ah st (pre @ args) = walk ah st1 args"
  by (induction pre arbitrary: st) (auto split: sum.splits)

lemma step_to_function:
  "\<not> contextFinal st \<Longrightarrow> getProperty (currentContext st) cmd = Inr (LFunction restricted n body) \<Longrightarrow>
   \<not> (ah \<and> contextDepth st = 0 \<and> toLowerCase cmd = ''help'') \<Longrightarrow>
   step ah st cmd =
     Inr (st\<lparr>currentContext := Live (LFunction restricted n body),
             contextDepth := contextDepth st + 1, contextFinal := True\<rparr>)"
  by (auto simp: step_def)

text \<open>
  What the call does when no read of the loop throws. When a token names a function of
  the current object, every later token that does not start with the flag prefix is a
  positional argument, and the function is called with all the positional arguments of
  the run in the order they came, whatever number of parameters it declares: the body
  receives the whole list, each declared parameter is the argument at its position, and
  \<open>undefined\<close> where there is none. This holds as long as no later token is \<open>arguments\<close>
  or \<open>caller\<close> while the function is a restricted one.
\<close>

lemma callable_gets_all_positionals:
  assumes "resolve (autoHelp this) (program this) pre = Inr st"
    and "\<not> contextFinal st"
    and "getProperty (currentContext st) cmd = Inr (LFunction restricted n body)"
    and "\<not> (autoHelp this \<and> contextDepth st = 0 \<and> toLowerCase cmd = ''help'')"
    and "\<not> (restricted \<and> (\<exists>a\<in>set rest. a \<in> set RESTRICTED_PROPERTIES))"
    and "ps = positionalArgs st @ filter (\<lambda>a. \<not> startsWith a FLAG_PREFIX) rest"
  shows "runInternal this (runtimePath # scriptPath # pre @ cmd # rest) =
     (case body (map (\<lambda>i. if i < length ps then Some (ps ! i) else None) [0..<n]) ps of
        Inl ex \<Rightarrow> Thrown ex
      | Inr returnValue \<Rightarrow> if isNullish returnValue then NoOutput else ValueHandled returnValue)"
proof -
  let ?st1 = "st\<lparr>currentContext := Live (LFunction restricted n body),
                contextDepth := contextDepth st + 1, contextFinal := True\<rparr>"
  have s: "step (autoHelp this) st cmd = Inr ?st1"
    using assms(2,3,4) by (rule step_to_function)
  have "contextFinal ?st1" and "0 < contextDepth ?st1"
    and "currentContext ?st1 = Live (LFunction restricted n body)"
    by simp_all
  from walk_at_function[OF this assms(5), of "autoHelp this"] obtain st' where
    w: "walk (autoHelp this) ?st1 rest = Inr st'"
    and c: "currentContext st' = Live (LFunction restricted n body)"
    and p: "positionalArgs st' = ps"
    by (auto simp: assms(6))
  from assms(1) have "resolve (autoHelp this) (program this) (pre @ cmd # rest) =
      walk (autoHelp this) st (cmd # rest)"
    unfolding resolve_def by (rule walk_append)
  also have "\<dots> = Inr st'"
    by (simp only: walk.simps s sum.case w)
  finally have r: "resolve (autoHelp this) (program this) (pre @ cmd # rest) = Inr st'" .
  have raw: "rawArgsOf (runtimePath # scriptPath # pre @ cmd # rest) = pre @ cmd # rest"
    by (simp add: rawArgsOf_def)
  have el: "element ps = (\<lambda>i. if i < length ps then Some (ps ! i) else None)"
    by (rule ext) (simp add: element_def)
  show ?thesis
    unfolding runInternal_def raw r dispatch_def
    by (simp add: c p callFunction_def el split: sum.splits)
qed

lemma resolve_version_arguments:
  "resolve True (demoProgram None) [''version'', ''arguments''] = Inl TypeError"
  by (simp add: resolve_def step_def initialResolver_def demoProgram_def lower_version
      RESTRICTED_PROPERTIES_def toLowerCase_def lowerChar_def)

lemma resolve_version_extra:
  "resolve True (demoProgram None) [''version'', ''extra''] =
     Inr \<lparr> currentContext = Live (LFunction True 0 (\<lambda>ps args. Inr (LString ''unknown''))),
       contextDepth = 1, contextFinal = True, positionalArgs = [''extra''], flags = [] \<rparr>"
  by (simp add: resolve_def step_def initialResolver_def demoProgram_def lower_version
      RESTRICTED_PROPERTIES_def toLowerCase_def lowerChar_def startsWith_def FLAG_PREFIX_def)

text \<open>
  C7. A command should be called with all the positional arguments, and no extra
  argument should raise an error. The code does not call the command when a later token
  is \<open>arguments\<close> (or \<open>caller\<close>): the loop reads \<open>context[arg]\<close> on every token, also when
  the context is already the command, and on an arrow function that read throws a
  \<open>TypeError\<close>. In the demonstration program \<open>version extra\<close> calls \<open>version\<close> with
  \<open>extra\<close> and hands its result to the value handler, and \<open>version arguments\<close> ends in the
  \<open>TypeError\<close> with \<open>version\<close> never called.
\<close>

theorem command_not_called_after_restricted_name:
  "getProperty (currentContext (initialResolver (program demoCli))) ''version'' =
     Inr (LFunction True 0 (\<lambda>ps args. Inr (LString ''unknown'')))
   \<and> startsWith ''arguments'' FLAG_PREFIX = False
   \<and> runInternal demoCli [''bun'', ''demo.ts'', ''version'', ''arguments''] = Thrown TypeError
   \<and> runInternal demoCli [''bun'', ''demo.ts'', ''version'', ''extra''] = ValueHandled (LString ''unknown'')"
proof -
  have "getProperty (currentContext (initialResolver (program demoCli))) ''version'' =
     Inr (LFunction True 0 (\<lambda>ps args. Inr (LString ''unknown'')))"
    by (simp add: demoCli_fields initialResolver_def demoProgram_def)
  moreover have "startsWith ''arguments'' FLAG_PREFIX = False"
    by (simp add: startsWith_def FLAG_PREFIX_def)
  moreover have "runInternal demoCli [''bun'', ''demo.ts'', ''version'', ''arguments''] = Thrown TypeError"
    by (simp add: runInternal_def demoCli_fields rawArgsOf_def resolve_version_arguments)
  moreover have "runInternal demoCli [''bun'', ''demo.ts'', ''version'', ''extra''] = ValueHandled (LString ''unknown'')"
    by (simp add: runInternal_def demoCli_fields rawArgsOf_def resolve_version_extra
        dispatch_def callFunction_def)
  ultimately show ?thesis
    by (intro conjI)
qed

section \<open>One instance per process\<close>

lemma Cli_of_unbound:
  "cliInstance proc = None \<Longrightarrow>
   Cli_of proc prog meta options =
     (Inr (newCli proc prog meta options),
      proc\<lparr>cliInstance := Some (newCli proc prog meta options)\<rparr>)"
  by (simp add: Cli_of_def Let_def)

lemma Cli_of_bound:
  "cliInstance proc = Some inst \<Longrightarrow>
   Cli_of proc prog meta options =
     (Inl (Exited (Error ''Cli is a singleton, cannot create multiple instances'' None) 1), proc)"
  by (simp add: Cli_of_def failGracefully_def)

lemma bindAll_bound: "cliInstance proc = Some inst \<Longrightarrow> bindAll proc attempts = proc"
proof (induction attempts arbitrary: proc)
  case Nil
  show ?case by simp
next
  case (Cons a attempts)
  obtain prog meta options where a: "a = (prog, meta, options)"
    by (cases a)
  from Cons.prems have "snd (Cli_of proc prog meta options) = proc"
    by (simp add: Cli_of_bound)
  with Cons.IH[OF Cons.prems] show ?case
    by (simp add: a)
qed

text \<open>
  C8. In a process with no instance yet, the first call of \<open>Cli.of\<close> returns the new
  instance and installs it. A call of \<open>Cli.of\<close> after that ends in \<open>failGracefully\<close> with
  the error \<open>Cli is a singleton, cannot create multiple instances\<close> and exit code 1, and
  leaves the process as it was; after any sequence of further attempts the installed
  instance is still the first one.
\<close>

theorem single_instance:
  "cliInstance proc = None \<Longrightarrow>
   fst (Cli_of proc p1 m1 o1) = Inr (newCli proc p1 m1 o1)
   \<and> cliInstance (snd (Cli_of proc p1 m1 o1)) = Some (newCli proc p1 m1 o1)
   \<and> Cli_of (snd (Cli_of proc p1 m1 o1)) p2 m2 o2 =
       (Inl (Exited (Error ''Cli is a singleton, cannot create multiple instances'' None) 1),
        snd (Cli_of proc p1 m1 o1))
   \<and> cliInstance (bindAll proc ((p1, m1, o1) # attempts)) = Some (newCli proc p1 m1 o1)"
proof -
  assume unbound: "cliInstance proc = None"
  let ?inst = "newCli proc p1 m1 o1"
  let ?proc1 = "proc\<lparr>cliInstance := Some ?inst\<rparr>"
  have first: "Cli_of proc p1 m1 o1 = (Inr ?inst, ?proc1)"
    using unbound by (rule Cli_of_unbound)
  have bound: "cliInstance ?proc1 = Some ?inst"
    by simp
  have second: "Cli_of ?proc1 p2 m2 o2 =
      (Inl (Exited (Error ''Cli is a singleton, cannot create multiple instances'' None) 1), ?proc1)"
    using bound by (rule Cli_of_bound)
  have later: "bindAll ?proc1 attempts = ?proc1"
    using bound by (rule bindAll_bound)
  show ?thesis
    by (simp add: first second later)
qed

theorem single_instance_witness:
  "cliInstance (demoProcess []) = None
   \<and> fst (Cli_of (demoProcess []) (demoProgram None) demoInterface demoOptions) = Inr demoCli
   \<and> cliInstance (snd (Cli_of (demoProcess []) (demoProgram None) demoInterface demoOptions)) = Some demoCli
   \<and> Cli_of (snd (Cli_of (demoProcess []) (demoProgram None) demoInterface demoOptions))
        [] demoInterface demoOptions =
       (Inl (Exited (Error ''Cli is a singleton, cannot create multiple instances'' None) 1),
        snd (Cli_of (demoProcess []) (demoProgram None) demoInterface demoOptions))
   \<and> cliInstance (bindAll (demoProcess [])
        [(demoProgram None, demoInterface, demoOptions), ([], demoInterface, demoOptions)]) = Some demoCli"
proof -
  have h: "cliInstance (demoProcess []) = None"
    by (simp add: demoProcess_def)
  from single_instance[OF h, of "demoProgram None" demoInterface demoOptions "[]" demoInterface demoOptions
      "[([], demoInterface, demoOptions)]"] h
  show ?thesis
    by (simp only: demoCli_def[symmetric])
qed

section \<open>Rendering a type\<close>

text \<open>
  C9, as stated, fails on the record type: the rendering puts a space after the comma,
  \<open>Map<string, number>\<close> and not \<open>Map<string,number>\<close>.
\<close>

theorem record_type_rendering_has_space:
  "humanReadableType (OfType (MetaRecordType ScalarString (MetaTypeRef (ScalarType ScalarNumber) False)))
     = ''Map<string, number>''
   \<and> humanReadableType (OfType (MetaRecordType ScalarString (MetaTypeRef (ScalarType ScalarNumber) False)))
     \<noteq> ''Map<'' @ humanReadableType (OfType (ScalarType ScalarString)) @ '',''
         @ humanReadableType (OfTypeRef (MetaTypeRef (ScalarType ScalarNumber) False)) @ ''>''"
  by simp

text \<open>
  C9, amended. \<open>humanReadableType\<close> is a total recursive function on metadata types. A
  record type renders as \<open>Map<K, V>\<close>, with a comma and a space between the renderings
  \<open>K\<close> and \<open>V\<close> of its key and value types; an array type as the rendering of its element
  type followed by \<open>[]\<close>; a type reference as its underlying type, whatever its nullable
  flag; an object type as its name, or as \<open>unknown\<close> when it has none; a scalar type and
  \<open>unknown\<close> as themselves.
\<close>

theorem humanReadableType_rendering:
  "humanReadableType (OfType (MetaRecordType k v)) =
     ''Map<'' @ humanReadableType (OfType (ScalarType k)) @ '', '' @ humanReadableType (OfTypeRef v) @ ''>''
   \<and> humanReadableType (OfType (MetaArrayType v)) = humanReadableType (OfTypeRef v) @ ''[]''
   \<and> humanReadableType (OfTypeRef (MetaTypeRef t nullable)) = humanReadableType (OfType t)
   \<and> humanReadableType (OfType (MetaObjectType (Some name) description ms)) = name
   \<and> humanReadableType (OfType (MetaObjectType None description ms)) = ''unknown''
   \<and> humanReadableType (OfType (ScalarType s)) = scalarName s
   \<and> humanReadableType OfUnknown = ''unknown''"
  by simp

theorem humanReadableType_rendering_witness:
  "humanReadableType (OfTypeRef (MetaTypeRef (MetaRecordType ScalarString
       (MetaTypeRef (MetaArrayType (MetaTypeRef (MetaObjectType (Some ''Person'') None []) True)) False)) True))
     = ''Map<string, Person[]>''
   \<and> humanReadableType (OfType (MetaArrayType (MetaTypeRef (MetaObjectType None None []) False)))
     = ''unknown[]''"
proof -
  note r = humanReadableType_rendering
  have "humanReadableType (OfTypeRef (MetaTypeRef (MetaRecordType ScalarString
       (MetaTypeRef (MetaArrayType (MetaTypeRef (MetaObjectType (Some ''Person'') None []) True)) False)) True))
     = ''Map<'' @ scalarName ScalarString @ '', '' @ (''Person'' @ ''[]'') @ ''>''"
    by (simp only: r)
  moreover have "humanReadableType (OfType (MetaArrayType (MetaTypeRef (MetaObjectType None None []) False)))
     = ''unknown'' @ ''[]''"
    by (simp only: r)
  ultimately show ?thesis
    by simp
qed

section \<open>Members without a value\<close>

lemma map_of_removed: "map_of (filter (\<lambda>p. fst p \<noteq> arg) ps) arg = None"
  by (induction ps) auto

text \<open>
  C10. While the walk is at an object, a token that names a member whose value is null
  or undefined, and that is not consumed as the help keyword, is not descended into: it
  records a flag when it starts with the flag prefix and is a positional argument
  otherwise, and the walk stays at the object. The same token does the same at the
  object without that member.
\<close>

theorem null_member_is_skipped:
  "\<not> contextFinal st \<Longrightarrow> currentContext st = Live (LObject ps) \<Longrightarrow>
   map_of ps arg = Some v \<Longrightarrow> isNullish v \<Longrightarrow>
   \<not> (ah \<and> contextDepth st = 0 \<and> toLowerCase arg = ''help'') \<Longrightarrow>
   st' = st\<lparr>currentContext := Live (LObject (filter (\<lambda>p. fst p \<noteq> arg) ps))\<rparr> \<Longrightarrow>
   r = (if startsWith arg FLAG_PREFIX then recordFlag arg st
        else st\<lparr>positionalArgs := positionalArgs st @ [arg]\<rparr>) \<Longrightarrow>
   r' = (if startsWith arg FLAG_PREFIX then recordFlag arg st'
         else st'\<lparr>positionalArgs := positionalArgs st' @ [arg]\<rparr>) \<Longrightarrow>
   step ah st arg = Inr r
   \<and> step ah st' arg = Inr r'
   \<and> currentContext r = currentContext st
   \<and> contextFinal r = contextFinal r'
   \<and> contextDepth r = contextDepth r'
   \<and> positionalArgs r = positionalArgs r'
   \<and> flags r = flags r'"
proof -
  assume nav: "\<not> contextFinal st"
    and ctx: "currentContext st = Live (LObject ps)"
    and mem: "map_of ps arg = Some v"
    and nul: "isNullish v"
    and nohelp: "\<not> (ah \<and> contextDepth st = 0 \<and> toLowerCase arg = ''help'')"
    and st': "st' = st\<lparr>currentContext := Live (LObject (filter (\<lambda>p. fst p \<noteq> arg) ps))\<rparr>"
    and r: "r = (if startsWith arg FLAG_PREFIX then recordFlag arg st
                 else st\<lparr>positionalArgs := positionalArgs st @ [arg]\<rparr>)"
    and r': "r' = (if startsWith arg FLAG_PREFIX then recordFlag arg st'
                   else st'\<lparr>positionalArgs := positionalArgs st' @ [arg]\<rparr>)"
  have p: "getProperty (currentContext st) arg = Inr v"
    using ctx mem by simp
  have p': "getProperty (currentContext st') arg = Inr LUndefined"
    by (simp add: st' map_of_removed)
  have nohelp': "\<not> (ah \<and> contextDepth st' = 0 \<and> toLowerCase arg = ''help'')"
    using nohelp by (simp add: st')
  have s: "step ah st arg = Inr r"
    using p nul nohelp by (auto simp: step_def r)
  have s': "step ah st' arg = Inr r'"
    using p' nohelp' by (auto simp: step_def r')
  show ?thesis
    unfolding s s' by (simp add: r r' recordFlag_name_value st')
qed

theorem null_member_is_skipped_witness:
  "step True (initialResolver [(''ghost'', LNull), (''--dry'', LUndefined)]) ''ghost'' =
     Inr ((initialResolver [(''ghost'', LNull), (''--dry'', LUndefined)])\<lparr>positionalArgs := [''ghost'']\<rparr>)
   \<and> step True (initialResolver [(''--dry'', LUndefined)]) ''ghost'' =
     Inr ((initialResolver [(''--dry'', LUndefined)])\<lparr>positionalArgs := [''ghost'']\<rparr>)
   \<and> step True (initialResolver [(''ghost'', LNull), (''--dry'', LUndefined)]) ''--dry'' =
     Inr ((initialResolver [(''ghost'', LNull), (''--dry'', LUndefined)])\<lparr>flags := [(''dry'', [])]\<rparr>)"
proof -
  let ?prog = "[(''ghost'', LNull), (''--dry'', LUndefined)]"
  let ?st = "initialResolver ?prog"
  have nav: "\<not> contextFinal ?st" and ctx: "currentContext ?st = Live (LObject ?prog)"
    by (simp_all add: initialResolver_def)
  have m1: "map_of ?prog ''ghost'' = Some LNull" and m2: "map_of ?prog ''--dry'' = Some LUndefined"
    by simp_all
  have n1: "isNullish LNull" and n2: "isNullish LUndefined"
    by simp_all
  have h1: "\<not> (True \<and> contextDepth ?st = 0 \<and> toLowerCase ''ghost'' = ''help'')"
    and h2: "\<not> (True \<and> contextDepth ?st = 0 \<and> toLowerCase ''--dry'' = ''help'')"
    by (simp_all add: toLowerCase_def lowerChar_def)
  have r1: "initialResolver [(''--dry'', LUndefined)] =
      ?st\<lparr>currentContext := Live (LObject (filter (\<lambda>p. fst p \<noteq> ''ghost'') ?prog))\<rparr>"
    by (simp add: initialResolver_def)
  have f1: "\<not> startsWith ''ghost'' FLAG_PREFIX" and f2: "startsWith ''--dry'' FLAG_PREFIX"
    by (simp_all add: startsWith_def FLAG_PREFIX_def)
  have pos: "positionalArgs ?st = []" "positionalArgs (initialResolver [(''--dry'', LUndefined)]) = []"
    by (simp_all add: initialResolver_def)
  from null_member_is_skipped[OF nav ctx m1 n1 h1 r1 refl refl] f1 pos
  have a: "step True ?st ''ghost'' = Inr (?st\<lparr>positionalArgs := [''ghost'']\<rparr>)"
    and b: "step True (initialResolver [(''--dry'', LUndefined)]) ''ghost'' =
     Inr ((initialResolver [(''--dry'', LUndefined)])\<lparr>positionalArgs := [''ghost'']\<rparr>)"
    by simp_all
  from null_member_is_skipped[OF nav ctx m2 n2 h2 refl refl refl] f2
  have c: "step True ?st ''--dry'' = Inr (?st\<lparr>flags := [(''dry'', [])]\<rparr>)"
    by (simp add: recordFlag_name_value assignProperty_def initialResolver_def FLAG_PREFIX_def)
  from a b c show ?thesis
    by (intro conjI)
qed

end
